theory Spec2Isabelle
  imports Main "HOL-Library.AList"
begin

section \<open>Python values and exceptions\<close>

text \<open>
  The fragment of Python values that the text-file payloads are made of. A dictionary is
  an association list in its iteration order, which is the order in which the keys were
  inserted; \<open>dict_set\<close> overwrites a key in place and appends a new one. The keys
  are strings, or \<open>None\<close> (the key under which the csv reader files surplus cells).
\<close>

datatype pykey = KNone | KStr string

datatype pyval =
    PNone
  | PBool bool
  | PInt int
  | PStr string
  | PList "pyval list"
  | PDict "(pykey \<times> pyval) list"

text \<open>
  Exceptions. An assertion failure carries the message the source gives it; the exceptions
  of the standard library are kept by class only.
\<close>

datatype exc =
    AssertionError string
  | AttributeError
  | CsvError
  | EOFError
  | IOError
  | IndexError
  | KeyError
  | SyntaxError
  | TypeError
  | ValueError
  | OtherError string

abbreviation (input) LF :: char where "LF \<equiv> CHR 0x0A"
abbreviation (input) CR :: char where "CR \<equiv> CHR 0x0D"
abbreviation (input) DQUOTE :: char where "DQUOTE \<equiv> CHR 0x22"
abbreviation (input) SQUOTE :: char where "SQUOTE \<equiv> CHR 0x27"
abbreviation (input) BACKSLASH :: char where "BACKSLASH \<equiv> CHR 0x5C"

text \<open>Truth value testing, as \<open>not force\<close> and \<open>if force\<close> apply it.\<close>

fun truthy :: "pyval \<Rightarrow> bool" where
  "truthy PNone = False"
| "truthy (PBool b) = b"
| "truthy (PInt i) = (i \<noteq> 0)"
| "truthy (PStr s) = (s \<noteq> [])"
| "truthy (PList xs) = (xs \<noteq> [])"
| "truthy (PDict kvs) = (kvs \<noteq> [])"

definition dict_set :: "'k \<Rightarrow> 'v \<Rightarrow> ('k \<times> 'v) list \<Rightarrow> ('k \<times> 'v) list" where
  "dict_set k v d = AList.update k v d"

definition dict_get :: "('k \<times> 'v) list \<Rightarrow> 'k \<Rightarrow> 'v \<Rightarrow> 'v" where
  \<comment> \<open>\<open>d.get(k, default)\<close>\<close>
  "dict_get d k dflt = (case map_of d k of None \<Rightarrow> dflt | Some v \<Rightarrow> v)"

definition dict_of :: "('k \<times> 'v) list \<Rightarrow> ('k \<times> 'v) list" where
  \<comment> \<open>\<open>dict(pairs)\<close>: later pairs overwrite earlier ones\<close>
  "dict_of kvs = foldl (\<lambda>d (k, v). dict_set k v d) [] kvs"

subsection \<open>\<open>str\<close> and \<open>repr\<close>\<close>

definition digit_char :: "nat \<Rightarrow> char" where
  "digit_char n = char_of (of_char (CHR ''0'') + n)"

fun str_nat :: "nat \<Rightarrow> string" where
  "str_nat n = (if n < 10 then [digit_char n] else str_nat (n div 10) @ [digit_char (n mod 10)])"

declare str_nat.simps [simp del]

definition str_int :: "int \<Rightarrow> string" where
  "str_int i = (if i < 0 then CHR ''-'' # str_nat (nat (- i)) else str_nat (nat i))"

definition hex_char :: "nat \<Rightarrow> char" where
  "hex_char n = (if n < 10 then digit_char n else char_of (of_char (CHR ''a'') + (n - 10)))"

definition repr_char :: "char \<Rightarrow> char \<Rightarrow> string" where
  "repr_char q c =
     (if c = q \<or> c = BACKSLASH then [BACKSLASH, c]
      else if c = CHR 0x09 then [BACKSLASH, CHR ''t'']
      else if c = LF then [BACKSLASH, CHR ''n'']
      else if c = CR then [BACKSLASH, CHR ''r'']
      else if (of_char c :: nat) < 32 \<or> 127 \<le> (of_char c :: nat)
        then [BACKSLASH, CHR ''x'', hex_char (of_char c div 16), hex_char (of_char c mod 16)]
      else [c])"

definition repr_str :: "string \<Rightarrow> string" where
  "repr_str s =
     (let q = (if SQUOTE \<in> set s \<and> DQUOTE \<notin> set s then DQUOTE else SQUOTE)
      in [q] @ concat (map (repr_char q) s) @ [q])"

definition join :: "string \<Rightarrow> string list \<Rightarrow> string" where
  \<comment> \<open>\<open>sep.join(xs)\<close>\<close>
  "join sep xs = (case xs of [] \<Rightarrow> [] | y # ys \<Rightarrow> y @ concat (map (\<lambda>z. sep @ z) ys))"

definition key_repr :: "pykey \<Rightarrow> string" where
  "key_repr k = (case k of KNone \<Rightarrow> ''None'' | KStr s \<Rightarrow> repr_str s)"

fun py_repr :: "pyval \<Rightarrow> string" where
  "py_repr PNone = ''None''"
| "py_repr (PBool b) = (if b then ''True'' else ''False'')"
| "py_repr (PInt i) = str_int i"
| "py_repr (PStr s) = repr_str s"
| "py_repr (PList xs) = ''['' @ join '', '' (map py_repr xs) @ '']''"
| "py_repr (PDict kvs) =
     ''{'' @ join '', '' (map (\<lambda>kv. key_repr (fst kv) @ '': '' @ py_repr (snd kv)) kvs) @ ''}''"

definition py_str :: "pyval \<Rightarrow> string" where
  "py_str v = (case v of PStr s \<Rightarrow> s | _ \<Rightarrow> py_repr v)"

section \<open>The process environment\<close>

text \<open>
  The part of the world the library touches: the file system (regular files with their
  content, and directories), the lines waiting on standard input (\<open>None\<close> is end of
  input), how many of them have been read, and what has been written to standard output
  and standard error. Opening a path for writing fails only when the path is a directory.
  Assertions are enabled.
\<close>

datatype node = RegFile string | Directory

record world =
  fs :: "string \<rightharpoonup> node"
  stdin :: "nat \<Rightarrow> string option"
  consumed :: nat
  stdout :: "string list"
  stderr :: "string list"

definition isfile :: "world \<Rightarrow> string \<Rightarrow> bool" where
  \<comment> \<open>\<open>os.path.isfile\<close>\<close>
  "isfile w p = (case fs w p of Some (RegFile c) \<Rightarrow> True | _ \<Rightarrow> False)"

definition open_read :: "world \<Rightarrow> string \<Rightarrow> exc + string" where
  \<comment> \<open>\<open>open(p)\<close> followed by reading the whole file\<close>
  "open_read w p =
     (case fs w p of
        Some (RegFile c) \<Rightarrow> Inr c
      | Some Directory \<Rightarrow> Inl (IOError)
      | None \<Rightarrow> Inl (IOError))"

definition open_write :: "world \<Rightarrow> string \<Rightarrow> exc + world" where
  \<comment> \<open>\<open>open(p, 'w')\<close>: creates the file or truncates it\<close>
  "open_write w p =
     (case fs w p of
        Some Directory \<Rightarrow> Inl (IOError)
      | _ \<Rightarrow> Inr (w\<lparr>fs := (fs w)(p \<mapsto> RegFile [])\<rparr>))"

definition file_append :: "string \<Rightarrow> string \<Rightarrow> world \<Rightarrow> world" where
  \<comment> \<open>\<open>outfile.write(s)\<close> on a file opened by \<open>open_write\<close>\<close>
  "file_append p s w =
     (case fs w p of
        Some (RegFile c) \<Rightarrow> w\<lparr>fs := (fs w)(p \<mapsto> RegFile (c @ s))\<rparr>
      | _ \<Rightarrow> w)"

definition getsize :: "world \<Rightarrow> string \<Rightarrow> exc + nat" where
  \<comment> \<open>\<open>os.path.getsize\<close>\<close>
  "getsize w p =
     (case fs w p of
        Some (RegFile c) \<Rightarrow> Inr (length c)
      | Some Directory \<Rightarrow> Inr 0
      | None \<Rightarrow> Inl (IOError))"

definition eprint :: "string \<Rightarrow> world \<Rightarrow> world" where
  \<comment> \<open>\<open>eprint(msg)\<close> with the default \<open>newline\<close>\<close>
  "eprint msg w = w\<lparr>stderr := stderr w @ [msg @ [LF]]\<rparr>"

definition raw_input :: "string \<Rightarrow> world \<Rightarrow> (exc + string) \<times> world" where
  \<comment> \<open>writes the prompt, then reads one line without its newline\<close>
  "raw_input msg w =
     (let w1 = w\<lparr>stdout := stdout w @ [msg]\<rparr>
      in case stdin w (consumed w) of
           None \<Rightarrow> (Inl EOFError, w1)
         | Some line \<Rightarrow> (Inr line, w1\<lparr>consumed := consumed w + 1\<rparr>))"

section \<open>The standard library behind textfile.py\<close>

subsection \<open>File extensions\<close>

fun rfind :: "char \<Rightarrow> string \<Rightarrow> int" where
  \<comment> \<open>\<open>p.rfind(c)\<close>: the last index of \<open>c\<close>, or \<open>-1\<close>\<close>
  "rfind c [] = -1"
| "rfind c (x # xs) = (let r = rfind c xs in if r \<noteq> -1 then r + 1 else if x = c then 0 else -1)"

definition splitext :: "string \<Rightarrow> string \<times> string" where
  \<comment> \<open>\<open>os.path.splitext\<close> (posixpath): leading dots of the last component are not an extension\<close>
  "splitext p =
     (let sepIndex = rfind (CHR ''/'') p; dotIndex = rfind (CHR ''.'') p
      in if dotIndex > sepIndex
            \<and> list_ex (\<lambda>c. c \<noteq> CHR ''.'') (take (nat (dotIndex - (sepIndex + 1))) (drop (nat (sepIndex + 1)) p))
         then (take (nat dotIndex) p, drop (nat dotIndex) p)
         else (p, []))"

definition strip_dots :: "string \<Rightarrow> string" where
  \<comment> \<open>\<open>s.strip('.')\<close>\<close>
  "strip_dots s = rev (dropWhile (\<lambda>c. c = CHR ''.'') (rev (dropWhile (\<lambda>c. c = CHR ''.'') s)))"

definition lower_char :: "char \<Rightarrow> char" where
  "lower_char c =
     (if (of_char (CHR ''A'') :: nat) \<le> of_char c \<and> (of_char c :: nat) \<le> of_char (CHR ''Z'')
      then char_of ((of_char c :: nat) + 32) else c)"

definition lower :: "string \<Rightarrow> string" where
  \<comment> \<open>\<open>s.lower()\<close>\<close>
  "lower s = map lower_char s"

subsection \<open>The csv writer\<close>

text \<open>
  \<open>csv.writer\<close> in the \<open>excel\<close> dialect with a line feed as line terminator: cells are
  joined by commas; a cell is quoted when it holds a comma, a double quote or a line feed,
  and when it is the empty only cell of its row; a double quote inside a quoted cell is
  doubled.
\<close>

definition key_val :: "pykey \<Rightarrow> pyval" where
  "key_val k = (case k of KNone \<Rightarrow> PNone | KStr s \<Rightarrow> PStr s)"

definition key_of :: "pyval \<Rightarrow> pykey option" where
  "key_of v = (case v of PNone \<Rightarrow> Some KNone | PStr s \<Rightarrow> Some (KStr s) | _ \<Rightarrow> None)"

definition csv_cell :: "pyval \<Rightarrow> string" where
  \<comment> \<open>\<open>None\<close> is written as the empty cell, a string as it is, anything else through \<open>str\<close>\<close>
  "csv_cell v = (case v of PNone \<Rightarrow> [] | PStr s \<Rightarrow> s | _ \<Rightarrow> py_str v)"

definition csv_field :: "bool \<Rightarrow> string \<Rightarrow> string" where
  "csv_field quote_empty s =
     (if list_ex (\<lambda>c. c = CHR '','' \<or> c = DQUOTE \<or> c = LF) s \<or> (s = [] \<and> quote_empty)
      then [DQUOTE] @ concat (map (\<lambda>c. if c = DQUOTE then [DQUOTE, DQUOTE] else [c]) s) @ [DQUOTE]
      else s)"

definition csv_writerow :: "pyval list \<Rightarrow> string" where
  "csv_writerow row =
     join '','' (map (\<lambda>v. csv_field (length row = 1) (csv_cell v)) row) @ [LF]"

text \<open>
  \<open>csv.DictWriter\<close> with its defaults: a missing key gives the empty string, a key that
  is not a field name raises \<open>ValueError\<close>. A row that is not a dictionary is iterated for
  the membership test and then fails on \<open>get\<close>.
\<close>

definition dict_to_list :: "pykey list \<Rightarrow> pyval \<Rightarrow> exc + pyval list" where
  \<comment> \<open>\<open>DictWriter._dict_to_list\<close>\<close>
  "dict_to_list fieldnames rowdict =
     (case rowdict of
        PDict d \<Rightarrow>
          (let wrong_fields = filter (\<lambda>k. k \<notin> set fieldnames) (map fst d)
           in if wrong_fields \<noteq> [] then Inl ValueError
              else Inr (map (\<lambda>key. dict_get d key (PStr [])) fieldnames))
      | PList xs \<Rightarrow>
          (if list_ex (\<lambda>x. case key_of x of None \<Rightarrow> True | Some k \<Rightarrow> k \<notin> set fieldnames) xs
           then Inl ValueError else Inl AttributeError)
      | PStr s \<Rightarrow>
          (if list_ex (\<lambda>c. KStr [c] \<notin> set fieldnames) s then Inl ValueError else Inl AttributeError)
      | _ \<Rightarrow> Inl TypeError)"

fun dicts_to_lists :: "pykey list \<Rightarrow> pyval list \<Rightarrow> exc + pyval list list" where
  \<comment> \<open>the loop of \<open>DictWriter.writerows\<close>, which converts every row before writing any\<close>
  "dicts_to_lists fieldnames [] = Inr []"
| "dicts_to_lists fieldnames (rowdict # rowdicts) =
     (case dict_to_list fieldnames rowdict of
        Inl e \<Rightarrow> Inl e
      | Inr row \<Rightarrow>
          (case dicts_to_lists fieldnames rowdicts of
             Inl e \<Rightarrow> Inl e
           | Inr rows \<Rightarrow> Inr (row # rows)))"

subsection \<open>The csv reader\<close>

text \<open>
  \<open>csv.reader\<close> in the \<open>excel\<close> dialect (comma, double quote, doubled quotes, no escape
  character, not strict), as the state machine of the \<open>_csv\<close> module; the states that only
  an escape character reaches are left out. The reader is fed the lines of the file, each
  with its line feed, and the end-of-line marker (\<open>None\<close>) after each line. The
  field size limit and the rejection of NUL bytes are not modelled.
\<close>

datatype parse_state =
  START_RECORD | START_FIELD | IN_FIELD | IN_QUOTED_FIELD | QUOTE_IN_QUOTED_FIELD | EAT_CRNL

record reader =
  state :: parse_state
  row_fields :: "string list"
  field :: string

definition parse_reset :: reader where
  "parse_reset = \<lparr>state = START_RECORD, row_fields = [], field = []\<rparr>"

definition parse_save_field :: "reader \<Rightarrow> reader" where
  "parse_save_field r = r\<lparr>row_fields := row_fields r @ [field r], field := []\<rparr>"

definition parse_add_char :: "char \<Rightarrow> reader \<Rightarrow> reader" where
  "parse_add_char c r = r\<lparr>field := field r @ [c]\<rparr>"

definition is_newline :: "char option \<Rightarrow> bool" where
  "is_newline c = (c = Some LF \<or> c = Some CR)"

definition start_field :: "reader \<Rightarrow> char option \<Rightarrow> reader" where
  \<comment> \<open>the case \<open>START_FIELD\<close>\<close>
  "start_field r c =
     (if is_newline c \<or> c = None
        then (parse_save_field r)\<lparr>state := (if c = None then START_RECORD else EAT_CRNL)\<rparr>
      else if c = Some DQUOTE then r\<lparr>state := IN_QUOTED_FIELD\<rparr>
      else if c = Some (CHR '','') then parse_save_field r
      else (parse_add_char (the c) r)\<lparr>state := IN_FIELD\<rparr>)"

definition parse_process_char :: "reader \<Rightarrow> char option \<Rightarrow> exc + reader" where
  "parse_process_char r c =
     (case state r of
        START_RECORD \<Rightarrow>
          (if c = None then Inr r
           else if is_newline c then Inr (r\<lparr>state := EAT_CRNL\<rparr>)
           else Inr (start_field (r\<lparr>state := START_FIELD\<rparr>) c))
      | START_FIELD \<Rightarrow> Inr (start_field r c)
      | IN_FIELD \<Rightarrow>
          (if is_newline c \<or> c = None
             then Inr ((parse_save_field r)\<lparr>state := (if c = None then START_RECORD else EAT_CRNL)\<rparr>)
           else if c = Some (CHR '','') then Inr ((parse_save_field r)\<lparr>state := START_FIELD\<rparr>)
           else Inr (parse_add_char (the c) r))
      | IN_QUOTED_FIELD \<Rightarrow>
          (if c = None then Inr r
           else if c = Some DQUOTE then Inr (r\<lparr>state := QUOTE_IN_QUOTED_FIELD\<rparr>)
           else Inr (parse_add_char (the c) r))
      | QUOTE_IN_QUOTED_FIELD \<Rightarrow>
          (if c = Some DQUOTE then Inr ((parse_add_char DQUOTE r)\<lparr>state := IN_QUOTED_FIELD\<rparr>)
           else if c = Some (CHR '','') then Inr ((parse_save_field r)\<lparr>state := START_FIELD\<rparr>)
           else if is_newline c \<or> c = None
             then Inr ((parse_save_field r)\<lparr>state := (if c = None then START_RECORD else EAT_CRNL)\<rparr>)
           else Inr ((parse_add_char (the c) r)\<lparr>state := IN_FIELD\<rparr>))
      | EAT_CRNL \<Rightarrow>
          (if is_newline c then Inr r
           else if c = None then Inr (r\<lparr>state := START_RECORD\<rparr>)
           else Inl CsvError))"

fun feed :: "reader \<Rightarrow> char option list \<Rightarrow> exc + reader" where
  "feed r [] = Inr r"
| "feed r (c # cs) = (case parse_process_char r c of Inl e \<Rightarrow> Inl e | Inr r' \<Rightarrow> feed r' cs)"

fun reader_rows :: "reader \<Rightarrow> string list \<Rightarrow> exc + string list list" where
  \<comment> \<open>every row the reader yields; a row ends with the line that leaves the state \<open>START_RECORD\<close>\<close>
  "reader_rows r [] =
     (if field r \<noteq> [] \<or> state r = IN_QUOTED_FIELD then Inr [row_fields (parse_save_field r)] else Inr [])"
| "reader_rows r (line # lines) =
     (case feed r (map Some line @ [None]) of
        Inl e \<Rightarrow> Inl e
      | Inr r' \<Rightarrow>
          if state r' = START_RECORD
          then (case reader_rows parse_reset lines of
                  Inl e \<Rightarrow> Inl e
                | Inr rows \<Rightarrow> Inr (row_fields r' # rows))
          else reader_rows r' lines)"

fun file_lines :: "string \<Rightarrow> string \<Rightarrow> string list" where
  \<comment> \<open>iterating over an open file: the lines, each with its line feed\<close>
  "file_lines cur [] = (if cur = [] then [] else [cur])"
| "file_lines cur (c # cs) =
     (if c = LF then (cur @ [c]) # file_lines [] cs else file_lines (cur @ [c]) cs)"

text \<open>
  \<open>csv.DictReader\<close> with its defaults: the first row gives the field names, empty rows
  are skipped, surplus cells are filed under the key \<open>None\<close>, and missing cells are
  \<open>None\<close>.
\<close>

definition dict_row :: "string list \<Rightarrow> string list \<Rightarrow> (pykey \<times> pyval) list" where
  "dict_row fieldnames row =
     (let d = dict_of (zip (map KStr fieldnames) (map PStr row));
          lf = length fieldnames;
          lr = length row
      in if lf < lr then dict_set KNone (PList (map PStr (drop lf row))) d
         else if lf > lr then foldl (\<lambda>d key. dict_set (KStr key) PNone d) d (drop lr fieldnames)
         else d)"

definition DictReader :: "string list list \<Rightarrow> pyval list" where
  "DictReader rows =
     (case rows of
        [] \<Rightarrow> []
      | fieldnames # rest \<Rightarrow> map (\<lambda>row. PDict (dict_row fieldnames row)) (filter (\<lambda>row. row \<noteq> []) rest))"

subsection \<open>Parsers and serialisers taken as parameters\<close>

text \<open>
  What \<open>ast.literal_eval\<close>, \<open>configparser\<close>, \<open>json\<close> and \<open>yaml\<close> compute is not part of the
  repository; the functions below stand for them. \<open>ini_parse\<close> is \<open>ConfigParser.read\<close>
  followed by \<open>sections\<close> and \<open>items\<close>: the sections in order, each with its (key, value)
  pairs. \<open>ini_add_section\<close> and \<open>ini_set\<close> say which calls raise, \<open>ini_render\<close> is
  \<open>ConfigParser.write\<close>. \<open>json_dump\<close> gives the text written before it returned or raised.
\<close>

record lib =
  literal_eval :: "string \<Rightarrow> exc + pyval"
  ini_parse :: "string \<Rightarrow> exc + (string \<times> (string \<times> string) list) list"
  ini_add_section :: "pykey \<Rightarrow> exc option"
  ini_set :: "pykey \<Rightarrow> pykey \<Rightarrow> string \<Rightarrow> exc option"
  ini_render :: "(pykey \<times> (pykey \<times> string) list) list \<Rightarrow> string"
  json_load :: "string \<Rightarrow> exc + pyval"
  json_dump :: "pyval \<Rightarrow> string \<times> exc option"
  yaml_load :: "string \<Rightarrow> exc + pyval"
  yaml_dump :: "pyval \<Rightarrow> exc + string"

section \<open>textfile.py\<close>

record TextFile =
  fname :: string
  ftype :: string

subsection \<open>Construction\<close>

text \<open>
  \<open>__init__\<close> assigns the attribute \<open>ftype\<close> only when no override is given; the assertion
  then reads the attribute, which fails with \<open>AttributeError\<close> when it was never assigned.
\<close>

definition TextFile_init :: "string \<Rightarrow> string option \<Rightarrow> exc + TextFile" where
  "TextFile_init fn ftype_arg =
     (let self_ftype = (if ftype_arg = None then Some (lower (strip_dots (snd (splitext fn)))) else None)
      in case self_ftype of
           None \<Rightarrow> Inl AttributeError
         | Some t \<Rightarrow>
             if t \<in> set [''csv'', ''ini'', ''json'', ''txt'', '''', ''yaml'']
             then Inr \<lparr>fname = fn, ftype = t\<rparr>
             else Inl (AssertionError (''Unsupported file type: '' @ t)))"

subsection \<open>Reading\<close>

definition read_csv :: "string \<Rightarrow> world \<Rightarrow> exc + pyval" where
  "read_csv fn w =
     (case open_read w fn of
        Inl e \<Rightarrow> Inl e
      | Inr content \<Rightarrow>
          (case reader_rows parse_reset (file_lines [] content) of
             Inl e \<Rightarrow> Inl e
           | Inr rows \<Rightarrow> Inr (PList (DictReader rows))))"

fun coerce_items ::
  "(string \<Rightarrow> exc + pyval) \<Rightarrow> (string \<times> string) list \<Rightarrow> (pykey \<times> pyval) list
    \<Rightarrow> exc + (pykey \<times> pyval) list" where
  \<comment> \<open>the inner loop of \<open>read_ini\<close> over the items of one section\<close>
  "coerce_items lit [] d = Inr d"
| "coerce_items lit ((key, value) # items) d =
     (case lit value of
        Inr v \<Rightarrow> coerce_items lit items (dict_set (KStr key) v d)
      | Inl e \<Rightarrow> if e = SyntaxError \<or> e = ValueError then coerce_items lit items d else Inl e)"

fun read_sections ::
  "(string \<Rightarrow> exc + pyval) \<Rightarrow> (string \<times> (string \<times> string) list) list \<Rightarrow> (pykey \<times> pyval) list
    \<Rightarrow> exc + (pykey \<times> pyval) list" where
  \<comment> \<open>the outer loop of \<open>read_ini\<close> over the sections\<close>
  "read_sections lit [] fdata = Inr fdata"
| "read_sections lit ((section, items) # cfg_sections) fdata =
     (let d0 = dict_of items
      in case coerce_items lit d0 (map (\<lambda>(k, v). (KStr k, PStr v)) d0) of
           Inl e \<Rightarrow> Inl e
         | Inr d \<Rightarrow> read_sections lit cfg_sections (dict_set (KStr section) (PDict d) fdata))"

definition read_ini :: "lib \<Rightarrow> string \<Rightarrow> world \<Rightarrow> exc + pyval" where
  \<comment> \<open>\<open>ConfigParser.read\<close> skips a file it cannot open\<close>
  "read_ini L fn w =
     (case (case open_read w fn of Inl e \<Rightarrow> Inr [] | Inr content \<Rightarrow> ini_parse L content) of
        Inl e \<Rightarrow> Inl e
      | Inr cfg_sections \<Rightarrow>
          (case read_sections (literal_eval L) cfg_sections [] of
             Inl e \<Rightarrow> Inl e
           | Inr fdata \<Rightarrow> Inr (PDict fdata)))"

definition read_json :: "lib \<Rightarrow> string \<Rightarrow> world \<Rightarrow> exc + pyval" where
  "read_json L fn w = (case open_read w fn of Inl e \<Rightarrow> Inl e | Inr content \<Rightarrow> json_load L content)"

definition read_text :: "string \<Rightarrow> world \<Rightarrow> exc + pyval" where
  "read_text fn w = (case open_read w fn of Inl e \<Rightarrow> Inl e | Inr content \<Rightarrow> Inr (PStr content))"

definition read_yaml :: "lib \<Rightarrow> string \<Rightarrow> world \<Rightarrow> exc + pyval" where
  "read_yaml L fn w = (case open_read w fn of Inl e \<Rightarrow> Inl e | Inr content \<Rightarrow> yaml_load L content)"

definition TextFile_read :: "lib \<Rightarrow> TextFile \<Rightarrow> world \<Rightarrow> exc + pyval" where
  "TextFile_read L self w =
     (if \<not> isfile w (fname self) then Inl (AssertionError (''File not found: '' @ fname self))
      else if ftype self = ''csv'' then read_csv (fname self) w
      else if ftype self = ''ini'' then read_ini L (fname self) w
      else if ftype self = ''json'' then read_json L (fname self) w
      else if ftype self = ''txt'' \<or> ftype self = '''' then read_text (fname self) w
      else if ftype self = ''yaml'' then read_yaml L (fname self) w
      else Inr PNone)"

subsection \<open>Writing\<close>

definition write_csv :: "string \<Rightarrow> pyval \<Rightarrow> world \<Rightarrow> (exc + string) \<times> world" where
  "write_csv fn fdata w =
     (case fdata of
        PList rowdicts \<Rightarrow>
          (case rowdicts of
             [] \<Rightarrow> (Inl IndexError, w)
           | first # _ \<Rightarrow>
               (case first of
                  PDict d \<Rightarrow>
                    (let keys = map fst d
                     in case open_write w fn of
                          Inl e \<Rightarrow> (Inl e, w)
                        | Inr w1 \<Rightarrow>
                            (let w2 = file_append fn (csv_writerow (map key_val keys)) w1
                             in case dicts_to_lists keys rowdicts of
                                  Inl e \<Rightarrow> (Inl e, w2)
                                | Inr rows \<Rightarrow>
                                    (Inr fn, file_append fn (concat (map csv_writerow rows)) w2)))
                | _ \<Rightarrow> (Inl (AssertionError ''Each list element must be a dictionary.''), w)))
      | _ \<Rightarrow> (Inl (AssertionError ''Input data must be a list.''), w))"

fun ini_set_items :: "lib \<Rightarrow> pykey \<Rightarrow> (pykey \<times> pyval) list \<Rightarrow> exc option" where
  \<comment> \<open>the inner loop of \<open>write_ini\<close>\<close>
  "ini_set_items L section [] = None"
| "ini_set_items L section ((key, v) # items) =
     (case ini_set L section key (py_str v) of
        Some e \<Rightarrow> Some e
      | None \<Rightarrow> ini_set_items L section items)"

fun ini_fill ::
  "lib \<Rightarrow> (pykey \<times> pyval) list \<Rightarrow> (pykey \<times> (pykey \<times> string) list) list
    \<Rightarrow> exc + (pykey \<times> (pykey \<times> string) list) list" where
  \<comment> \<open>the outer loop of \<open>write_ini\<close>; the accumulator is the content of the \<open>ConfigParser\<close>\<close>
  "ini_fill L [] ini = Inr ini"
| "ini_fill L ((section, section_dict) # rest) ini =
     (case ini_add_section L section of
        Some e \<Rightarrow> Inl e
      | None \<Rightarrow>
          (case section_dict of
             PDict items \<Rightarrow>
               (case ini_set_items L section items of
                  Some e \<Rightarrow> Inl e
                | None \<Rightarrow> ini_fill L rest (ini @ [(section, map (\<lambda>(k, v). (k, py_str v)) items)]))
           | _ \<Rightarrow> Inl AttributeError))"

definition write_ini :: "lib \<Rightarrow> string \<Rightarrow> pyval \<Rightarrow> world \<Rightarrow> (exc + string) \<times> world" where
  "write_ini L fn fdata w =
     (case fdata of
        PDict secs \<Rightarrow>
          (case ini_fill L secs [] of
             Inl e \<Rightarrow> (Inl e, w)
           | Inr ini \<Rightarrow>
               (case open_write w fn of
                  Inl e \<Rightarrow> (Inl e, w)
                | Inr w1 \<Rightarrow> (Inr fn, file_append fn (ini_render L ini) w1)))
      | _ \<Rightarrow> (Inl (AssertionError ''Input data must be a dictionary.''), w))"

definition write_json :: "lib \<Rightarrow> string \<Rightarrow> pyval \<Rightarrow> world \<Rightarrow> (exc + string) \<times> world" where
  "write_json L fn fdata w =
     (case open_write w fn of
        Inl e \<Rightarrow> (Inl e, w)
      | Inr w1 \<Rightarrow>
          (let (text, err) = json_dump L fdata; w2 = file_append fn text w1
           in case err of Some e \<Rightarrow> (Inl e, w2) | None \<Rightarrow> (Inr fn, w2)))"

definition write_text :: "string \<Rightarrow> pyval \<Rightarrow> world \<Rightarrow> (exc + string) \<times> world" where
  "write_text fn fdata w =
     (case open_write w fn of
        Inl e \<Rightarrow> (Inl e, w)
      | Inr w1 \<Rightarrow> (Inr fn, file_append fn (py_str fdata) w1))"

definition write_yaml :: "lib \<Rightarrow> string \<Rightarrow> pyval \<Rightarrow> world \<Rightarrow> (exc + string) \<times> world" where
  "write_yaml L fn fdata w =
     (case open_write w fn of
        Inl e \<Rightarrow> (Inl e, w)
      | Inr w1 \<Rightarrow>
          (case yaml_dump L fdata of
             Inl e \<Rightarrow> (Inl e, w1)
           | Inr text \<Rightarrow> (Inr fn, file_append fn text w1)))"

subsection \<open>The overwrite confirmation\<close>

definition confirm_msg :: string where
  "confirm_msg = ''File exists! Overwrite? (y/N): ''"

partial_function (option) confirm_yn_n :: "string \<Rightarrow> world \<Rightarrow> ((exc + bool) \<times> world) option" where
  "confirm_yn_n msg w =
     (case raw_input msg w of
        (Inl e, w1) \<Rightarrow> Some (Inl e, w1)
      | (Inr user_says, w1) \<Rightarrow>
          if user_says = ''y'' \<or> user_says = ''Y'' then Some (Inr True, w1)
          else if user_says = ''n'' \<or> user_says = ''N'' \<or> user_says = '''' then Some (Inr False, w1)
          else confirm_yn_n msg (eprint ''Invalid input. Try again.'' w1))"

declare confirm_yn_n.simps [code]

text \<open>
  The part of \<open>write\<close> after the overwrite guard: the dispatch on the format, then the size
  of the file.
\<close>

definition write_dispatch :: "lib \<Rightarrow> TextFile \<Rightarrow> pyval \<Rightarrow> world \<Rightarrow> (exc + nat) \<times> world" where
  "write_dispatch L self fdata w =
     (let (r, w1) =
        (if ftype self = ''csv'' then write_csv (fname self) fdata w
         else if ftype self = ''ini'' then write_ini L (fname self) fdata w
         else if ftype self = ''json'' then write_json L (fname self) fdata w
         else if ftype self = ''txt'' \<or> ftype self = '''' then write_text (fname self) fdata w
         else if ftype self = ''yaml'' then write_yaml L (fname self) fdata w
         else write_text (fname self) fdata
                (eprint (''Unknown filetype ['' @ ftype self @ '']; writing as text.'') w))
      in case r of
           Inl e \<Rightarrow> (Inl e, w1)
         | Inr _ \<Rightarrow> (getsize w1 (fname self), w1))"

definition TextFile_write ::
  "lib \<Rightarrow> TextFile \<Rightarrow> pyval \<Rightarrow> pyval \<Rightarrow> world \<Rightarrow> ((exc + nat) \<times> world) option" where
  \<comment> \<open>\<open>None\<close>: the confirmation loop never returns\<close>
  "TextFile_write L self fdata force w =
     (if isfile w (fname self) \<and> \<not> truthy force
      then (case confirm_yn_n confirm_msg w of
              None \<Rightarrow> None
            | Some (Inl e, w1) \<Rightarrow> Some (Inl e, w1)
            | Some (Inr force', w1) \<Rightarrow>
                if force'
                then Some (write_dispatch L self fdata (eprint (''Overwriting file: '' @ fname self) w1))
                else Some (Inr 0, eprint (''Write cancelled: '' @ fname self) w1))
      else Some (write_dispatch L self fdata w))"

subsection \<open>The module-level functions \<open>read\<close> and \<open>write\<close>\<close>

definition module_read :: "lib \<Rightarrow> string \<Rightarrow> string option \<Rightarrow> world \<Rightarrow> exc + pyval" where
  "module_read L fn ftype_arg w =
     (case TextFile_init fn ftype_arg of Inl e \<Rightarrow> Inl e | Inr infile \<Rightarrow> TextFile_read L infile w)"

definition module_write ::
  "lib \<Rightarrow> string \<Rightarrow> pyval \<Rightarrow> string option \<Rightarrow> pyval \<Rightarrow> world \<Rightarrow> ((exc + nat) \<times> world) option" where
  "module_write L fn fdata ftype_arg force w =
     (case TextFile_init fn ftype_arg of
        Inl e \<Rightarrow> Some (Inl e, w)
      | Inr outfile \<Rightarrow> TextFile_write L outfile fdata force w)"

section \<open>moratorium.py\<close>

subsection \<open>The time module\<close>

text \<open>
  A time tuple, and the calendar arithmetic behind \<open>time.strptime\<close>: the proleptic
  Gregorian ordinal of a date, Monday being weekday 0. \<open>time.strftime\<close> is modelled on the
  time tuples that \<open>time.strptime\<close> and \<open>time.gmtime\<close> return: \<open>%j\<close> prints the field
  \<open>tm_yday\<close>, which \<open>int\<close> reads back, and \<open>%A\<close> prints the name of the weekday
  \<open>tm_wday\<close>.
\<close>

record struct_time =
  tm_year :: int
  tm_mon :: int
  tm_mday :: int
  tm_hour :: int
  tm_min :: int
  tm_sec :: int
  tm_wday :: int
  tm_yday :: int
  tm_isdst :: int

definition is_leap :: "int \<Rightarrow> bool" where
  "is_leap y = (y mod 4 = 0 \<and> (y mod 100 \<noteq> 0 \<or> y mod 400 = 0))"

definition days_in_month :: "int \<Rightarrow> int \<Rightarrow> int" where
  "days_in_month y m =
     (if m = 2 then (if is_leap y then 29 else 28)
      else if m = 4 \<or> m = 6 \<or> m = 9 \<or> m = 11 then 30 else 31)"

definition days_before_month :: "int \<Rightarrow> int \<Rightarrow> int" where
  "days_before_month y m = sum_list (map (days_in_month y) [1..m - 1])"

definition days_before_year :: "int \<Rightarrow> int" where
  "days_before_year y = (y - 1) * 365 + (y - 1) div 4 - (y - 1) div 100 + (y - 1) div 400"

definition ymd2ord :: "int \<Rightarrow> int \<Rightarrow> int \<Rightarrow> int" where
  "ymd2ord y m d = days_before_year y + days_before_month y m + d"

definition weekday :: "int \<Rightarrow> int \<Rightarrow> int \<Rightarrow> int" where
  "weekday y m d = (ymd2ord y m d + 6) mod 7"

definition date_tuple :: "int \<Rightarrow> int \<Rightarrow> int \<Rightarrow> exc + struct_time" where
  \<comment> \<open>what \<open>strptime\<close> builds from the year, month and day it has matched\<close>
  "date_tuple y m d =
     (if 1 \<le> y \<and> d \<le> days_in_month y m
      then Inr \<lparr>tm_year = y, tm_mon = m, tm_mday = d, tm_hour = 0, tm_min = 0, tm_sec = 0,
                tm_wday = weekday y m d, tm_yday = ymd2ord y m d - ymd2ord y 1 1 + 1, tm_isdst = -1\<rparr>
      else Inl ValueError)"

definition strptime_ymd :: "int \<Rightarrow> int \<Rightarrow> int \<Rightarrow> exc + struct_time" where
  \<comment> \<open>\<open>time.strptime("{} {} {}".format(year, month, d), "%Y %m %d")\<close>: the year has to print
      as four digits, the month as 1 to 12, the day as 1 to 31\<close>
  "strptime_ymd year month d =
     (if 1000 \<le> year \<and> year \<le> 9999 \<and> 1 \<le> month \<and> month \<le> 12 \<and> 1 \<le> d \<and> d \<le> 31
      then date_tuple year month d else Inl ValueError)"

fun split_on :: "char \<Rightarrow> string \<Rightarrow> string list" where
  \<comment> \<open>\<open>s.split(c)\<close>\<close>
  "split_on c [] = [[]]"
| "split_on c (x # xs) =
     (if x = c then [] # split_on c xs
      else (case split_on c xs of [] \<Rightarrow> [[x]] | p # ps \<Rightarrow> (x # p) # ps))"

definition is_digit :: "char \<Rightarrow> bool" where
  "is_digit c = ((of_char (CHR ''0'') :: nat) \<le> of_char c \<and> (of_char c :: nat) \<le> of_char (CHR ''9''))"

definition digits_val :: "string \<Rightarrow> int" where
  "digits_val s = foldl (\<lambda>a c. 10 * a + (int (of_char c) - 48)) 0 s"

definition match_Y :: "string \<Rightarrow> bool" where
  \<comment> \<open>\<open>%Y\<close>: four digits\<close>
  "match_Y s = (length s = 4 \<and> list_all is_digit s)"

definition match_m :: "string \<Rightarrow> bool" where
  \<comment> \<open>\<open>%m\<close>: \<open>1[0-2]|0[1-9]|[1-9]\<close>\<close>
  "match_m s = ((length s = 1 \<or> length s = 2) \<and> list_all is_digit s \<and> 1 \<le> digits_val s \<and> digits_val s \<le> 12)"

definition match_d :: "string \<Rightarrow> bool" where
  \<comment> \<open>\<open>%d\<close>: \<open>3[0-1]|[1-2]\d|0[1-9]|[1-9]| [1-9]\<close>\<close>
  "match_d s =
     (((length s = 1 \<or> length s = 2) \<and> list_all is_digit s \<and> 1 \<le> digits_val s \<and> digits_val s \<le> 31)
      \<or> (length s = 2 \<and> hd s = CHR '' '' \<and> is_digit (s ! 1) \<and> s ! 1 \<noteq> CHR ''0''))"

definition strptime_iso :: "string \<Rightarrow> exc + struct_time" where
  \<comment> \<open>\<open>time.strptime(isodate, "%Y-%m-%d")\<close>\<close>
  "strptime_iso isodate =
     (case split_on (CHR ''-'') isodate of
        [ys, ms, ds] \<Rightarrow>
          if match_Y ys \<and> match_m ms \<and> match_d ds
          then date_tuple (digits_val ys) (digits_val ms) (digits_val (dropWhile (\<lambda>c. c = CHR '' '') ds))
          else Inl ValueError
      | _ \<Rightarrow> Inl ValueError)"

definition strftime_j :: "struct_time \<Rightarrow> int" where
  \<comment> \<open>\<open>int(time.strftime("%j", dt))\<close>\<close>
  "strftime_j dt = tm_yday dt"

definition day_names :: "string list" where
  "day_names = [''Monday'', ''Tuesday'', ''Wednesday'', ''Thursday'', ''Friday'', ''Saturday'', ''Sunday'']"

definition strftime_A :: "struct_time \<Rightarrow> string" where
  \<comment> \<open>\<open>time.strftime("%A", dt)\<close>\<close>
  "strftime_A dt = day_names ! nat (tm_wday dt mod 7)"

definition py_index :: "'a list \<Rightarrow> int \<Rightarrow> exc + 'a" where
  \<comment> \<open>\<open>xs[i]\<close>, where \<open>xs[-k]\<close> is the \<open>k\<close>-th element from the end\<close>
  "py_index xs i =
     (if 0 \<le> i \<and> i < int (length xs) then Inr (xs ! nat i)
      else if i < 0 \<and> - int (length xs) \<le> i then Inr (xs ! (length xs - nat (- i)))
      else Inl IndexError)"

subsection \<open>The functions of the module\<close>

definition make_day_julian :: "string \<Rightarrow> exc + int" where
  "make_day_julian isodate =
     (case strptime_iso isodate of Inl e \<Rightarrow> Inl e | Inr dt \<Rightarrow> Inr (strftime_j dt))"

fun nth_day_loop :: "string \<Rightarrow> int \<Rightarrow> int \<Rightarrow> int list \<Rightarrow> int list \<Rightarrow> exc + int list" where
  \<comment> \<open>the loop of \<open>get_nth_day\<close>; only \<open>ValueError\<close> is caught\<close>
  "nth_day_loop day_name year month [] days_matched = Inr days_matched"
| "nth_day_loop day_name year month (d # ds) days_matched =
     (case strptime_ymd year month d of
        Inl e \<Rightarrow> if e = ValueError then nth_day_loop day_name year month ds days_matched else Inl e
      | Inr dt \<Rightarrow>
          if strftime_A dt = day_name
          then nth_day_loop day_name year month ds (days_matched @ [strftime_j dt])
          else nth_day_loop day_name year month ds days_matched)"

definition get_nth_day :: "string \<Rightarrow> int \<Rightarrow> int \<Rightarrow> int \<Rightarrow> exc + int" where
  "get_nth_day day_name n year month =
     (case nth_day_loop day_name year month [1..31] [] of
        Inl e \<Rightarrow> Inl e
      | Inr days_matched \<Rightarrow>
          if n = -1 then py_index days_matched (-1) else py_index days_matched (n - 1))"

fun display_values :: "(string \<times> (exc + int)) list \<Rightarrow> exc + (string \<times> int) list" where
  \<comment> \<open>the values of a dictionary display are computed in order, the first exception ends it\<close>
  "display_values [] = Inr []"
| "display_values ((k, v) # kvs) =
     (case v of
        Inl e \<Rightarrow> Inl e
      | Inr x \<Rightarrow> (case display_values kvs of Inl e \<Rightarrow> Inl e | Inr d \<Rightarrow> Inr ((k, x) # d)))"

definition dict_display :: "(string \<times> (exc + int)) list \<Rightarrow> exc + (string \<times> int) list" where
  "dict_display kvs = (case display_values kvs of Inl e \<Rightarrow> Inl e | Inr d \<Rightarrow> Inr (dict_of d))"

definition holidays :: "int \<Rightarrow> exc + (string \<times> int) list" where
  \<comment> \<open>the table built when the module is loaded, \<open>this_year\<close> being the year of the clock then\<close>
  "holidays this_year =
     dict_display
       [(''New Year's Day'', make_day_julian (str_int this_year @ ''-01-01'')),
        (''Martin Luther King Jr Day'', get_nth_day ''Monday'' 3 this_year 1),
        (''Presidents Day'', get_nth_day ''Monday'' 3 this_year 2),
        (''Memorial Day'', get_nth_day ''Monday'' (-1) this_year 5),
        (''Independence Day'', make_day_julian (str_int this_year @ ''-07-04'')),
        (''Labor Day'', get_nth_day ''Monday'' 1 this_year 9),
        (''Thanksgiving'', get_nth_day ''Thursday'' 4 this_year 11),
        (''Thanksgiving Friday'',
           (case get_nth_day ''Thursday'' 4 this_year 11 of Inl e \<Rightarrow> Inl e | Inr j \<Rightarrow> Inr (j + 1))),
        (''Christmas'', make_day_julian (str_int this_year @ ''-12-25''))]"

text \<open>
  The predicates take the table \<open>H\<close> of the loaded module and, for a call without a date,
  the time tuple \<open>now\<close> that \<open>time.gmtime()\<close> returns.
\<close>

definition is_holiday :: "(string \<times> int) list \<Rightarrow> struct_time \<Rightarrow> struct_time option \<Rightarrow> bool" where
  "is_holiday H now dtuple =
     (let dt = (case dtuple of None \<Rightarrow> now | Some t \<Rightarrow> t);
          today = strftime_j dt
      in if today \<in> set (map snd H) then True else False)"

definition is_eoy :: "(string \<times> int) list \<Rightarrow> struct_time \<Rightarrow> struct_time option \<Rightarrow> exc + bool" where
  "is_eoy H now dtuple =
     (let dt = (case dtuple of None \<Rightarrow> now | Some t \<Rightarrow> t)
      in case map_of H ''Thanksgiving'' of
           None \<Rightarrow> Inl KeyError
         | Some thx \<Rightarrow>
             (let today = strftime_j dt in if today \<ge> thx then Inr True else Inr False))"

section \<open>Notions used to state the properties\<close>

text \<open>
  A reply is decisive when the confirmation loop returns on it. \<open>invalid_reply w j\<close>: the
  \<open>j\<close>-th line still to be read is there and is not decisive. \<open>after_replies msg k w\<close> is
  the world after \<open>k\<close> invalid replies and one decisive reply: \<open>k + 1\<close> prompts written,
  \<open>k + 1\<close> lines read, \<open>k\<close> diagnostics printed.
\<close>

definition decisive :: "string \<Rightarrow> bool" where
  "decisive s = (s = ''y'' \<or> s = ''Y'' \<or> s = ''n'' \<or> s = ''N'' \<or> s = '''')"

definition invalid_reply :: "world \<Rightarrow> nat \<Rightarrow> bool" where
  "invalid_reply w j = (case stdin w (consumed w + j) of None \<Rightarrow> False | Some s \<Rightarrow> \<not> decisive s)"

definition invalid_round :: "string \<Rightarrow> nat \<Rightarrow> world \<Rightarrow> world" where
  "invalid_round msg k w =
     w\<lparr>consumed := consumed w + k,
       stdout := stdout w @ replicate k msg,
       stderr := stderr w @ replicate k (''Invalid input. Try again.'' @ [LF])\<rparr>"

definition after_replies :: "string \<Rightarrow> nat \<Rightarrow> world \<Rightarrow> world" where
  "after_replies msg k w =
     w\<lparr>consumed := consumed w + k + 1,
       stdout := stdout w @ replicate (k + 1) msg,
       stderr := stderr w @ replicate k (''Invalid input. Try again.'' @ [LF])\<rparr>"

text \<open>Worlds for concrete runs: the given regular files, the given lines on standard input.\<close>

definition world_of :: "(string \<times> string) list \<Rightarrow> (nat \<Rightarrow> string option) \<Rightarrow> world" where
  "world_of files lines =
     \<lparr>fs = map_of (map (\<lambda>(p, c). (p, RegFile c)) files), stdin = lines, consumed = 0,
      stdout = [], stderr = []\<rparr>"

definition typed_lines :: "string list \<Rightarrow> nat \<Rightarrow> string option" where
  \<comment> \<open>the lines typed, then end of input\<close>
  "typed_lines xs i = (if i < length xs then Some (xs ! i) else None)"

text \<open>
  A library for concrete runs. Its literal parser and its ini parser are given on the
  inputs of the examples only, with the results CPython gives there: \<open>1\<close> is an integer,
  \<open>maybe\<close> is a name and not a literal (\<open>ValueError\<close>), \<open>{[]: 1}\<close> has a list as
  dictionary key (\<open>TypeError\<close>: unhashable).
\<close>

definition sample_literal_eval :: "string \<Rightarrow> exc + pyval" where
  "sample_literal_eval s =
     (if s = ''1'' then Inr (PInt 1)
      else if s = ''maybe'' then Inl ValueError
      else if s = ''{[]: 1}'' then Inl TypeError
      else Inl SyntaxError)"

definition ini_text_plain :: string where
  "ini_text_plain = ''[s]'' @ [LF] @ ''n = 1'' @ [LF] @ ''w = maybe'' @ [LF]"

definition ini_text_unhashable :: string where
  "ini_text_unhashable = ''[s]'' @ [LF] @ ''k = {[]: 1}'' @ [LF]"

definition sample_ini_parse :: "string \<Rightarrow> exc + (string \<times> (string \<times> string) list) list" where
  "sample_ini_parse content =
     (if content = ini_text_plain then Inr [(''s'', [(''n'', ''1''), (''w'', ''maybe'')])]
      else if content = ini_text_unhashable then Inr [(''s'', [(''k'', ''{[]: 1}'')])]
      else Inr [])"

definition sample_lib :: lib where
  "sample_lib =
     \<lparr>literal_eval = sample_literal_eval,
      ini_parse = sample_ini_parse,
      ini_add_section = (\<lambda>section. None),
      ini_set = (\<lambda>section key v. None),
      ini_render = (\<lambda>ini. []),
      json_load = (\<lambda>s. Inl ValueError),
      json_dump = (\<lambda>v. ([], Some TypeError)),
      yaml_load = (\<lambda>s. Inl (OtherError ''YAMLError'')),
      yaml_dump = (\<lambda>v. Inl (OtherError ''YAMLError''))\<rparr>"

text \<open>The payloads of the csv examples; \<open>list_of_dicts\<close> is the one of the test suite.\<close>

definition list_of_dicts :: pyval where
  "list_of_dicts =
     PList [PDict [(KStr ''a'', PInt 1), (KStr ''b'', PInt 2), (KStr ''c'', PInt 3)],
            PDict [(KStr ''a'', PInt 11), (KStr ''b'', PInt 12), (KStr ''c'', PInt 13)]]"

definition csv_handle :: "string \<Rightarrow> TextFile" where
  "csv_handle fn = \<lparr>fname = fn, ftype = ''csv''\<rparr>"

text \<open>
  For the ini reader: a value is recoverable when literal parsing returns, or fails with
  \<open>SyntaxError\<close> or \<open>ValueError\<close>; \<open>coerced\<close> is the literal, or else the string
  itself.
\<close>

definition recoverable :: "lib \<Rightarrow> string \<Rightarrow> bool" where
  "recoverable L v = (case literal_eval L v of Inr x \<Rightarrow> True | Inl e \<Rightarrow> e = SyntaxError \<or> e = ValueError)"

definition coerced :: "lib \<Rightarrow> string \<Rightarrow> pyval" where
  "coerced L v = (case literal_eval L v of Inr x \<Rightarrow> x | Inl e \<Rightarrow> PStr v)"

definition all_recoverable :: "lib \<Rightarrow> (string \<times> (string \<times> string) list) list \<Rightarrow> bool" where
  "all_recoverable L cfg = list_all (\<lambda>(s, items). list_all (\<lambda>(k, v). recoverable L v) items) cfg"

definition ini_handle :: "string \<Rightarrow> TextFile" where
  "ini_handle fn = \<lparr>fname = fn, ftype = ''ini''\<rparr>"

text \<open>The time tuples of three dates, as \<open>time.strptime\<close> returns them.\<close>

definition date_2018_11_21 :: struct_time where
  "date_2018_11_21 =
     \<lparr>tm_year = 2018, tm_mon = 11, tm_mday = 21, tm_hour = 0, tm_min = 0, tm_sec = 0,
      tm_wday = 2, tm_yday = 325, tm_isdst = -1\<rparr>"

definition date_2018_11_22 :: struct_time where
  "date_2018_11_22 =
     \<lparr>tm_year = 2018, tm_mon = 11, tm_mday = 22, tm_hour = 0, tm_min = 0, tm_sec = 0,
      tm_wday = 3, tm_yday = 326, tm_isdst = -1\<rparr>"

definition date_2019_11_22 :: struct_time where
  "date_2019_11_22 =
     \<lparr>tm_year = 2019, tm_mon = 11, tm_mday = 22, tm_hour = 0, tm_min = 0, tm_sec = 0,
      tm_wday = 4, tm_yday = 326, tm_isdst = -1\<rparr>"


section \<open>The confirmation loop\<close>

lemma confirm_skip:
  assumes "invalid_reply w 0"
  shows "confirm_yn_n msg w = confirm_yn_n msg (invalid_round msg 1 w)"
proof -
  from assms obtain s where s: "stdin w (consumed w) = Some s" "\<not> decisive s"
    by (auto simp: invalid_reply_def split: option.splits)
  have "eprint ''Invalid input. Try again.'' (w\<lparr>stdout := stdout w @ [msg], consumed := consumed w + 1\<rparr>)
        = invalid_round msg 1 w"
    by (simp add: eprint_def invalid_round_def)
  with s show ?thesis
    by (subst confirm_yn_n.simps) (simp add: raw_input_def decisive_def Let_def)
qed

lemma invalid_reply_shift:
  "invalid_reply (invalid_round msg k w) j = invalid_reply w (k + j)"
  by (simp add: invalid_reply_def invalid_round_def add.assoc)

lemma invalid_round_add:
  "invalid_round msg k (invalid_round msg (Suc 0) w) = invalid_round msg (Suc k) w"
  by (simp add: invalid_round_def replicate_append_same)

lemma confirm_run:
  assumes "\<forall>j<k. invalid_reply w j"
  shows "confirm_yn_n msg w = confirm_yn_n msg (invalid_round msg k w)"
  using assms
proof (induction k arbitrary: w)
  case 0
  then show ?case by (simp add: invalid_round_def)
next
  case (Suc k)
  from Suc.prems have first: "invalid_reply w 0" by blast
  have "\<forall>j<k. invalid_reply (invalid_round msg 1 w) j"
    using Suc.prems by (simp add: invalid_reply_shift)
  from Suc.IH[OF this] show ?case
    using confirm_skip[OF first, of msg] by (simp add: invalid_round_add)
qed

lemma confirm_decisive:
  assumes "stdin w (consumed w) = Some s" "decisive s"
  shows "confirm_yn_n msg w = Some (Inr (s = ''y'' \<or> s = ''Y''), after_replies msg 0 w)"
  using assms
  by (subst confirm_yn_n.simps) (auto simp: raw_input_def decisive_def Let_def after_replies_def)

lemma confirm_eof:
  assumes "stdin w (consumed w) = None"
  shows "confirm_yn_n msg w = Some (Inl EOFError, w\<lparr>stdout := stdout w @ [msg]\<rparr>)"
  using assms by (subst confirm_yn_n.simps) (simp add: raw_input_def Let_def)

lemma after_replies_round:
  "after_replies msg 0 (invalid_round msg k w) = after_replies msg k w"
  by (simp add: after_replies_def invalid_round_def replicate_append_same)

lemma confirm_first_decisive:
  assumes "\<forall>j<k. invalid_reply w j" "stdin w (consumed w + k) = Some s" "decisive s"
  shows "confirm_yn_n msg w = Some (Inr (s = ''y'' \<or> s = ''Y''), after_replies msg k w)"
proof -
  have "stdin (invalid_round msg k w) (consumed (invalid_round msg k w)) = Some s"
    using assms(2) by (simp add: invalid_round_def)
  from confirm_decisive[OF this assms(3), of msg] show ?thesis
    using confirm_run[OF assms(1), of msg] by (simp add: after_replies_round)
qed

lemma confirm_first_eof:
  assumes "\<forall>j<k. invalid_reply w j" "stdin w (consumed w + k) = None"
  shows "\<exists>w'. confirm_yn_n msg w = Some (Inl EOFError, w')"
proof -
  have "stdin (invalid_round msg k w) (consumed (invalid_round msg k w)) = None"
    using assms(2) by (simp add: invalid_round_def)
  from confirm_eof[OF this, of msg] show ?thesis
    using confirm_run[OF assms(1), of msg] by simp
qed

lemma confirm_returns_valid:
  assumes "confirm_yn_n msg w = Some r"
  shows "\<exists>j. \<not> invalid_reply w j"
proof (rule confirm_yn_n.raw_induct [where P = "\<lambda>msg w r. \<exists>j. \<not> invalid_reply w j", OF _ assms])
  fix f :: "string \<Rightarrow> world \<Rightarrow> ((exc + bool) \<times> world) option" and m w' r'
  assume IH: "\<And>m w r. f m w = Some r \<Longrightarrow> \<exists>j. \<not> invalid_reply w j"
  assume step: "(case raw_input m w' of (Inl e, w1) \<Rightarrow> Some (Inl e, w1)
      | (Inr user_says, w1) \<Rightarrow>
          if user_says = ''y'' \<or> user_says = ''Y'' then Some (Inr True, w1)
          else if user_says = ''n'' \<or> user_says = ''N'' \<or> user_says = []
               then Some (Inr False, w1)
               else f m (eprint ''Invalid input. Try again.'' w1)) = Some r'"
  show "\<exists>j. \<not> invalid_reply w' j"
  proof (cases "invalid_reply w' 0")
    case False
    then show ?thesis by blast
  next
    case True
    then obtain s where s: "stdin w' (consumed w') = Some s" "\<not> decisive s"
      by (auto simp: invalid_reply_def split: option.splits)
    have "eprint ''Invalid input. Try again.'' (w'\<lparr>stdout := stdout w' @ [m], consumed := consumed w' + 1\<rparr>)
          = invalid_round m 1 w'"
      by (simp add: eprint_def invalid_round_def)
    with step s have "f m (invalid_round m 1 w') = Some r'"
      by (simp add: raw_input_def decisive_def Let_def)
    from IH[OF this] obtain j where "\<not> invalid_reply (invalid_round m 1 w') j" by blast
    then have "\<not> invalid_reply w' (Suc j)"
      by (simp add: invalid_reply_shift)
    then show ?thesis by blast
  qed
qed

lemma first_valid_reply:
  assumes "\<not> invalid_reply w j"
  obtains k where "\<forall>i<k. invalid_reply w i" "\<not> invalid_reply w k"
proof -
  define k where "k = (LEAST i. \<not> invalid_reply w i)"
  have "\<not> invalid_reply w k"
    unfolding k_def using assms by (rule LeastI)
  moreover have "\<forall>i<k. invalid_reply w i"
    unfolding k_def using not_less_Least by blast
  ultimately show thesis using that by blast
qed

text \<open>
  C3. The loop returns \<open>b\<close> exactly when some line is decisive, every line before the
  first decisive one is an invalid reply, and \<open>b\<close> tells whether that line is \<open>y\<close> or
  \<open>Y\<close> (so it returns false exactly when that line is \<open>n\<close>, \<open>N\<close> or empty); by then it
  has prompted once per line read and printed one diagnostic per invalid reply. It never
  returns exactly when every line read is an invalid reply, without end.
\<close>

theorem confirm_yn_n_first_decisive_reply:
  "(confirm_yn_n msg w = Some (Inr b, w') \<longleftrightarrow>
      (\<exists>k s. (\<forall>j<k. invalid_reply w j) \<and> stdin w (consumed w + k) = Some s \<and> decisive s
             \<and> b = (s = ''y'' \<or> s = ''Y'') \<and> w' = after_replies msg k w))
   \<and> (confirm_yn_n msg w = None \<longleftrightarrow> (\<forall>j. invalid_reply w j))"
proof (intro conjI iffI)
  assume ret: "confirm_yn_n msg w = Some (Inr b, w')"
  from confirm_returns_valid[OF ret] obtain j where "\<not> invalid_reply w j" by blast
  then obtain k where k: "\<forall>i<k. invalid_reply w i" "\<not> invalid_reply w k"
    by (rule first_valid_reply)
  show "\<exists>k s. (\<forall>j<k. invalid_reply w j) \<and> stdin w (consumed w + k) = Some s \<and> decisive s
             \<and> b = (s = ''y'' \<or> s = ''Y'') \<and> w' = after_replies msg k w"
  proof (cases "stdin w (consumed w + k)")
    case None
    from confirm_first_eof[OF k(1) None, of msg] ret show ?thesis by auto
  next
    case (Some s)
    with k(2) have d: "decisive s" by (simp add: invalid_reply_def)
    from confirm_first_decisive[OF k(1) Some d, of msg] ret
    have "b = (s = ''y'' \<or> s = ''Y'')" "w' = after_replies msg k w" by simp_all
    with k(1) Some d show ?thesis by blast
  qed
next
  assume "\<exists>k s. (\<forall>j<k. invalid_reply w j) \<and> stdin w (consumed w + k) = Some s \<and> decisive s
             \<and> b = (s = ''y'' \<or> s = ''Y'') \<and> w' = after_replies msg k w"
  then show "confirm_yn_n msg w = Some (Inr b, w')"
    using confirm_first_decisive by blast
next
  assume none: "confirm_yn_n msg w = None"
  show "\<forall>j. invalid_reply w j"
  proof (rule ccontr)
    assume "\<not> (\<forall>j. invalid_reply w j)"
    then obtain j where "\<not> invalid_reply w j" by blast
    then obtain k where k: "\<forall>i<k. invalid_reply w i" "\<not> invalid_reply w k"
      by (rule first_valid_reply)
    show False
    proof (cases "stdin w (consumed w + k)")
      case None
      from confirm_first_eof[OF k(1) None, of msg] none show False by auto
    next
      case (Some s)
      with k(2) have "decisive s" by (simp add: invalid_reply_def)
      from confirm_first_decisive[OF k(1) Some this, of msg] none show False by simp
    qed
  qed
next
  assume all: "\<forall>j. invalid_reply w j"
  show "confirm_yn_n msg w = None"
  proof (cases "confirm_yn_n msg w")
    case None
    then show ?thesis .
  next
    case (Some r)
    from confirm_returns_valid[OF Some] all show ?thesis by blast
  qed
qed

theorem confirm_yn_n_first_decisive_reply_witness:
  "confirm_yn_n confirm_msg (world_of [] (typed_lines [''maybe'', ''Y'']))
     = Some (Inr True, after_replies confirm_msg 1 (world_of [] (typed_lines [''maybe'', ''Y''])))
   \<and> confirm_yn_n confirm_msg (world_of [] (\<lambda>i. Some ''maybe'')) = None"
proof
  let ?w = "world_of [] (typed_lines [''maybe'', ''Y''])"
  have "\<exists>k s. (\<forall>j<k. invalid_reply ?w j) \<and> stdin ?w (consumed ?w + k) = Some s \<and> decisive s
             \<and> True = (s = ''y'' \<or> s = ''Y'') \<and> after_replies confirm_msg 1 ?w = after_replies confirm_msg k ?w"
    by (rule exI[of _ 1], rule exI[of _ "''Y''"])
       (simp add: invalid_reply_def world_of_def typed_lines_def decisive_def)
  with confirm_yn_n_first_decisive_reply[of confirm_msg ?w True "after_replies confirm_msg 1 ?w"]
  show "confirm_yn_n confirm_msg ?w = Some (Inr True, after_replies confirm_msg 1 ?w)"
    by blast
next
  let ?w = "world_of [] (\<lambda>i. Some ''maybe'')"
  have "\<forall>j. invalid_reply ?w j"
    by (simp add: invalid_reply_def world_of_def decisive_def)
  with confirm_yn_n_first_decisive_reply[of confirm_msg ?w]
  show "confirm_yn_n confirm_msg ?w = None" by blast
qed

section \<open>Construction\<close>

text \<open>
  C2. With an explicit format override the constructor never assigns the format: for every
  path and every override, also a supported one such as \<open>csv\<close>, construction ends in
  \<open>AttributeError\<close>; the override is neither taken as the format nor rejected as
  unsupported.
\<close>

theorem TextFile_init_override_raises:
  "TextFile_init fn (Some override) = Inl AttributeError"
  by (simp add: TextFile_init_def)

section \<open>Reading and writing through the handle\<close>

text \<open>
  C4. When the path is not an existing regular file, \<open>read\<close> fails with the assertion
  error "File not found", whatever the format of the handle and whatever the parsers
  would do: no reader is run.
\<close>

theorem read_missing_file_fails:
  "\<not> isfile w (fname self) \<Longrightarrow>
     TextFile_read L self w = Inl (AssertionError (''File not found: '' @ fname self))"
  by (simp add: TextFile_read_def)

theorem read_missing_file_fails_witness:
  "\<not> isfile (world_of [] (typed_lines [])) (fname \<lparr>fname = ''missing.json'', ftype = ''json''\<rparr>)
   \<and> TextFile_read sample_lib \<lparr>fname = ''missing.json'', ftype = ''json''\<rparr> (world_of [] (typed_lines []))
       = Inl (AssertionError ''File not found: missing.json'')"
proof -
  have h: "\<not> isfile (world_of [] (typed_lines [])) (fname \<lparr>fname = ''missing.json'', ftype = ''json''\<rparr>)"
    by (simp add: isfile_def world_of_def)
  from read_missing_file_fails[OF h, of sample_lib] h show ?thesis by simp
qed

lemma file_append_console [simp]:
  "stdin (file_append p s w) = stdin w" "consumed (file_append p s w) = consumed w"
  "stdout (file_append p s w) = stdout w" "stderr (file_append p s w) = stderr w"
  by (simp_all add: file_append_def split: option.splits node.splits)


lemma eprint_console [simp]:
  "stdin (eprint m w) = stdin w" "consumed (eprint m w) = consumed w"
  "stdout (eprint m w) = stdout w" "fs (eprint m w) = fs w"
  by (simp_all add: eprint_def)







lemma write_unguarded:
  assumes "truthy force \<or> \<not> isfile w (fname self)"
  shows "TextFile_write L self fdata force w = Some (write_dispatch L self fdata w)"
  using assms by (auto simp: TextFile_write_def)

text \<open>
  C1. Writing to an existing file without \<open>force\<close>, with \<open>n\<close>, \<open>N\<close> or the empty line as
  the reply to the prompt, returns 0 (a value, not an exception) and leaves the file
  system, so the content of the file, as it was.
\<close>

theorem write_declined_returns_zero:
  assumes "isfile w (fname self)"
    and "\<not> truthy force"
    and "stdin w (consumed w) = Some reply"
    and "reply = ''n'' \<or> reply = ''N'' \<or> reply = ''''"
  shows "\<exists>w'. TextFile_write L self fdata force w = Some (Inr 0, w') \<and> fs w' = fs w"
proof -
  from assms(4) have d: "decisive reply" and no: "\<not> (reply = ''y'' \<or> reply = ''Y'')"
    by (auto simp: decisive_def)
  from confirm_decisive[OF assms(3) d, of confirm_msg] no
  have "confirm_yn_n confirm_msg w = Some (Inr False, after_replies confirm_msg 0 w)" by simp
  with assms(1,2) show ?thesis
    by (simp add: TextFile_write_def after_replies_def)
qed

theorem write_declined_returns_zero_witness:
  "isfile (world_of [(''notes.txt'', ''old'')] (typed_lines [''N''])) (fname \<lparr>fname = ''notes.txt'', ftype = ''txt''\<rparr>)
   \<and> \<not> truthy PNone
   \<and> (\<exists>w'. TextFile_write sample_lib \<lparr>fname = ''notes.txt'', ftype = ''txt''\<rparr> (PStr ''new'') PNone
              (world_of [(''notes.txt'', ''old'')] (typed_lines [''N''])) = Some (Inr 0, w')
          \<and> fs w' ''notes.txt'' = Some (RegFile ''old''))"
proof -
  let ?w = "world_of [(''notes.txt'', ''old'')] (typed_lines [''N''])"
  let ?tf = "\<lparr>fname = ''notes.txt'', ftype = ''txt''\<rparr>"
  have h1: "isfile ?w (fname ?tf)" by (simp add: isfile_def world_of_def)
  have h2: "\<not> truthy PNone" by simp
  have h3: "stdin ?w (consumed ?w) = Some ''N''" by (simp add: world_of_def typed_lines_def)
  have h4: "''N'' = ''n'' \<or> ''N'' = ''N'' \<or> ''N'' = ''''" by simp
  from write_declined_returns_zero[OF h1 h2 h3 h4, of sample_lib "PStr ''new''"]
  obtain w' where "TextFile_write sample_lib ?tf (PStr ''new'') PNone ?w = Some (Inr 0, w')" "fs w' = fs ?w"
    by blast
  moreover have "fs ?w ''notes.txt'' = Some (RegFile ''old'')" by (simp add: world_of_def)
  ultimately show ?thesis using h1 h2 by auto
qed




section \<open>The csv format\<close>

lemma list_of_dicts_text:
  "concat (map csv_writerow [[PInt 1, PInt 2, PInt 3], [PInt 11, PInt 12, PInt 13]])
     = ''1,2,3'' @ [LF] @ ''11,12,13'' @ [LF]"
  by code_simp

lemma list_of_dicts_header:
  "csv_writerow (map key_val [KStr ''a'', KStr ''b'', KStr ''c'']) = ''a,b,c'' @ [LF]"
  by code_simp

lemma list_of_dicts_rows:
  "dicts_to_lists [KStr ''a'', KStr ''b'', KStr ''c'']
     [PDict [(KStr ''a'', PInt 1), (KStr ''b'', PInt 2), (KStr ''c'', PInt 3)],
      PDict [(KStr ''a'', PInt 11), (KStr ''b'', PInt 12), (KStr ''c'', PInt 13)]]
   = Inr [[PInt 1, PInt 2, PInt 3], [PInt 11, PInt 12, PInt 13]]"
  by code_simp

lemma list_of_dicts_parsed:
  "reader_rows parse_reset (file_lines [] (''a,b,c'' @ [LF] @ ''1,2,3'' @ [LF] @ ''11,12,13'' @ [LF]))
     = Inr [[''a'', ''b'', ''c''], [''1'', ''2'', ''3''], [''11'', ''12'', ''13'']]"
  by code_simp

lemma list_of_dicts_read_back:
  "DictReader [[''a'', ''b'', ''c''], [''1'', ''2'', ''3''], [''11'', ''12'', ''13'']]
     = [PDict [(KStr ''a'', PStr ''1''), (KStr ''b'', PStr ''2''), (KStr ''c'', PStr ''3'')],
        PDict [(KStr ''a'', PStr ''11''), (KStr ''b'', PStr ''12''), (KStr ''c'', PStr ''13'')]]"
  by code_simp

lemma write_csv_dicts:
  assumes "open_write w fn = Inr w1"
    and "dicts_to_lists (map fst d) (PDict d # rest) = Inr rows"
  shows "write_csv fn (PList (PDict d # rest)) w
           = (Inr fn, file_append fn (concat (map csv_writerow rows))
                        (file_append fn (csv_writerow (map key_val (map fst d))) w1))"
  using assms by (simp add: write_csv_def Let_def)

lemma open_write_creates:
  "fs w fn \<noteq> Some Directory \<Longrightarrow> open_write w fn = Inr (w\<lparr>fs := (fs w)(fn \<mapsto> RegFile [])\<rparr>)"
  by (auto simp: open_write_def split: option.splits node.splits)

lemma file_append_opened:
  "file_append fn s (w\<lparr>fs := (fs w)(fn \<mapsto> RegFile c)\<rparr>) = w\<lparr>fs := (fs w)(fn \<mapsto> RegFile (c @ s))\<rparr>"
  by (simp add: file_append_def)

lemma write_csv_list_of_dicts:
  assumes "fs w fn \<noteq> Some Directory"
  shows "write_csv fn list_of_dicts w
           = (Inr fn, w\<lparr>fs := (fs w)(fn \<mapsto> RegFile (''a,b,c'' @ [LF] @ ''1,2,3'' @ [LF] @ ''11,12,13'' @ [LF]))\<rparr>)"
proof -
  let ?d = "[(KStr ''a'', PInt 1), (KStr ''b'', PInt 2), (KStr ''c'', PInt 3)]"
  let ?rest = "[PDict [(KStr ''a'', PInt 11), (KStr ''b'', PInt 12), (KStr ''c'', PInt 13)]]"
  have keys: "map fst ?d = [KStr ''a'', KStr ''b'', KStr ''c'']" by simp
  have rows: "dicts_to_lists (map fst ?d) (PDict ?d # ?rest)
                = Inr [[PInt 1, PInt 2, PInt 3], [PInt 11, PInt 12, PInt 13]]"
    unfolding keys by (rule list_of_dicts_rows)
  have "write_csv fn (PList (PDict ?d # ?rest)) w
          = (Inr fn, file_append fn (concat (map csv_writerow [[PInt 1, PInt 2, PInt 3], [PInt 11, PInt 12, PInt 13]]))
                       (file_append fn (csv_writerow (map key_val (map fst ?d))) (w\<lparr>fs := (fs w)(fn \<mapsto> RegFile [])\<rparr>)))"
    by (rule write_csv_dicts[OF open_write_creates[OF assms] rows])
  also have "\<dots> = (Inr fn, w\<lparr>fs := (fs w)(fn \<mapsto> RegFile (''a,b,c'' @ [LF] @ ''1,2,3'' @ [LF] @ ''11,12,13'' @ [LF]))\<rparr>)"
    unfolding keys list_of_dicts_header list_of_dicts_text file_append_opened by simp
  finally show ?thesis by (simp only: list_of_dicts_def)
qed

text \<open>
  C5. Writing \<open>list_of_dicts\<close> through a csv handle (with \<open>force\<close>, or to a path that does
  not exist yet) and reading the file back gives two records in the order written, each
  with the keys \<open>a\<close>, \<open>b\<close>, \<open>c\<close> and every value as its decimal string.
\<close>

theorem csv_round_trip_list_of_dicts:
  assumes "fs w fn \<noteq> Some Directory"
    and "truthy force \<or> fs w fn = None"
  shows "\<exists>w'. TextFile_write L (csv_handle fn) list_of_dicts force w = Some (Inr 21, w')
           \<and> TextFile_read L (csv_handle fn) w'
               = Inr (PList [PDict [(KStr ''a'', PStr ''1''), (KStr ''b'', PStr ''2''), (KStr ''c'', PStr ''3'')],
                             PDict [(KStr ''a'', PStr ''11''), (KStr ''b'', PStr ''12''), (KStr ''c'', PStr ''13'')]])"
proof -
  let ?text = "''a,b,c'' @ [LF] @ ''1,2,3'' @ [LF] @ ''11,12,13'' @ [LF]"
  let ?w' = "w\<lparr>fs := (fs w)(fn \<mapsto> RegFile ?text)\<rparr>"
  from assms(2) have guard: "truthy force \<or> \<not> isfile w (fname (csv_handle fn))"
    by (auto simp: isfile_def csv_handle_def)
  have "write_dispatch L (csv_handle fn) list_of_dicts w = (Inr 21, ?w')"
    by (simp add: write_dispatch_def csv_handle_def write_csv_list_of_dicts[OF assms(1)] getsize_def)
  with write_unguarded[OF guard, of L list_of_dicts]
  have "TextFile_write L (csv_handle fn) list_of_dicts force w = Some (Inr 21, ?w')"
    by simp
  moreover have "TextFile_read L (csv_handle fn) ?w'
      = Inr (PList [PDict [(KStr ''a'', PStr ''1''), (KStr ''b'', PStr ''2''), (KStr ''c'', PStr ''3'')],
                    PDict [(KStr ''a'', PStr ''11''), (KStr ''b'', PStr ''12''), (KStr ''c'', PStr ''13'')]])"
    using list_of_dicts_parsed list_of_dicts_read_back
    by (simp add: TextFile_read_def csv_handle_def isfile_def read_csv_def open_read_def)
  ultimately show ?thesis by blast
qed

theorem csv_round_trip_list_of_dicts_witness:
  "fs (world_of [] (typed_lines [])) ''t.csv'' \<noteq> Some Directory
   \<and> (truthy (PBool True) \<or> fs (world_of [] (typed_lines [])) ''t.csv'' = None)
   \<and> (\<exists>w'. TextFile_write sample_lib (csv_handle ''t.csv'') list_of_dicts (PBool True)
               (world_of [] (typed_lines [])) = Some (Inr 21, w')
           \<and> TextFile_read sample_lib (csv_handle ''t.csv'') w'
               = Inr (PList [PDict [(KStr ''a'', PStr ''1''), (KStr ''b'', PStr ''2''), (KStr ''c'', PStr ''3'')],
                             PDict [(KStr ''a'', PStr ''11''), (KStr ''b'', PStr ''12''), (KStr ''c'', PStr ''13'')]]))"
proof -
  have h1: "fs (world_of [] (typed_lines [])) ''t.csv'' \<noteq> Some Directory"
    by (simp add: world_of_def)
  have h2: "truthy (PBool True) \<or> fs (world_of [] (typed_lines [])) ''t.csv'' = None"
    by simp
  from csv_round_trip_list_of_dicts[OF h1 h2, of sample_lib] h1 h2 show ?thesis by blast
qed









section \<open>The ini format\<close>

lemma update_new_key:
  "k \<notin> fst ` set al \<Longrightarrow> AList.update k v al = al @ [(k, v)]"
  by (induction al) auto

lemma foldl_dict_set_distinct:
  "distinct (map fst (acc @ kvs)) \<Longrightarrow> foldl (\<lambda>d (k, v). dict_set k v d) acc kvs = acc @ kvs"
proof (induction kvs arbitrary: acc)
  case Nil
  then show ?case by simp
next
  case (Cons kv kvs)
  obtain k v where kv: "kv = (k, v)" by (cases kv)
  from Cons.prems kv have new: "k \<notin> fst ` set acc" by auto
  from Cons.prems kv have "distinct (map fst ((acc @ [(k, v)]) @ kvs))" by auto
  from Cons.IH[OF this] show ?case
    using kv by (simp add: dict_set_def update_new_key[OF new])
qed

lemma dict_of_distinct:
  "distinct (map fst kvs) \<Longrightarrow> dict_of kvs = kvs"
  using foldl_dict_set_distinct[of "[]" kvs] by (simp add: dict_of_def)

lemma map_of_dict_set:
  "map_of (dict_set k v d) = (map_of d)(k \<mapsto> v)"
  by (simp add: dict_set_def update_conv')

lemma coerce_items_lookup:
  assumes "distinct (map fst items)"
    and "list_all (\<lambda>(k, v). recoverable L v) items"
  shows "\<exists>d'. coerce_items (literal_eval L) items d = Inr d'
           \<and> (\<forall>key. map_of d' key =
                 (case key of
                    KNone \<Rightarrow> map_of d key
                  | KStr k \<Rightarrow>
                      (case map_of items k of
                         None \<Rightarrow> map_of d key
                       | Some v \<Rightarrow> (case literal_eval L v of Inr x \<Rightarrow> Some x | Inl e \<Rightarrow> map_of d key))))"
  using assms
proof (induction items arbitrary: d)
  case Nil
  then show ?case by (auto split: pykey.splits)
next
  case (Cons kv items)
  obtain k v where kv: "kv = (k, v)" by (cases kv)
  from Cons.prems kv have dist: "distinct (map fst items)" and new: "k \<notin> fst ` set items"
    and rec: "recoverable L v" and rest: "list_all (\<lambda>(k, v). recoverable L v) items"
    by auto
  from new have nk: "map_of items k = None" by (simp add: map_of_eq_None_iff)
  show ?case
  proof (cases "literal_eval L v")
    case (Inr x)
    from Cons.IH[OF dist rest, of "dict_set (KStr k) x d"]
    obtain d' where d': "coerce_items (literal_eval L) items (dict_set (KStr k) x d) = Inr d'"
      and look: "\<forall>key. map_of d' key =
                 (case key of
                    KNone \<Rightarrow> map_of (dict_set (KStr k) x d) key
                  | KStr k' \<Rightarrow>
                      (case map_of items k' of
                         None \<Rightarrow> map_of (dict_set (KStr k) x d) key
                       | Some v \<Rightarrow> (case literal_eval L v of Inr x \<Rightarrow> Some x
                                     | Inl e \<Rightarrow> map_of (dict_set (KStr k) x d) key)))"
      by blast
    have "coerce_items (literal_eval L) (kv # items) d = Inr d'"
      using kv Inr d' by simp
    moreover have "map_of d' key =
                 (case key of
                    KNone \<Rightarrow> map_of d key
                  | KStr k' \<Rightarrow>
                      (case map_of (kv # items) k' of
                         None \<Rightarrow> map_of d key
                       | Some v \<Rightarrow> (case literal_eval L v of Inr x \<Rightarrow> Some x | Inl e \<Rightarrow> map_of d key)))" for key
      using look[rule_format, of key] kv Inr nk
      by (auto simp: map_of_dict_set split: pykey.splits option.splits sum.splits)
    ultimately show ?thesis by blast
  next
    case (Inl e)
    with rec have e: "e = SyntaxError \<or> e = ValueError" by (simp add: recoverable_def)
    from Cons.IH[OF dist rest, of d]
    obtain d' where d': "coerce_items (literal_eval L) items d = Inr d'"
      and look: "\<forall>key. map_of d' key =
                 (case key of
                    KNone \<Rightarrow> map_of d key
                  | KStr k' \<Rightarrow>
                      (case map_of items k' of
                         None \<Rightarrow> map_of d key
                       | Some v \<Rightarrow> (case literal_eval L v of Inr x \<Rightarrow> Some x | Inl e \<Rightarrow> map_of d key)))"
      by blast
    have "coerce_items (literal_eval L) (kv # items) d = Inr d'"
      using kv Inl e d' by auto
    moreover have "map_of d' key =
                 (case key of
                    KNone \<Rightarrow> map_of d key
                  | KStr k' \<Rightarrow>
                      (case map_of (kv # items) k' of
                         None \<Rightarrow> map_of d key
                       | Some v \<Rightarrow> (case literal_eval L v of Inr x \<Rightarrow> Some x | Inl e \<Rightarrow> map_of d key)))" for key
      using look[rule_format, of key] kv Inl nk
      by (auto split: pykey.splits option.splits sum.splits)
    ultimately show ?thesis by blast
  qed
qed

lemma map_of_initial_strings:
  "map_of (map (\<lambda>(k, v). (KStr k, PStr v)) items) (KStr k) = map_option PStr (map_of items k)"
  by (induction items) auto

lemma coerce_section:
  assumes "distinct (map fst items)"
    and "list_all (\<lambda>(k, v). recoverable L v) items"
  shows "\<exists>d'. coerce_items (literal_eval L) items (map (\<lambda>(k, v). (KStr k, PStr v)) items) = Inr d'
           \<and> (\<forall>(k, v)\<in>set items. map_of d' (KStr k) = Some (coerced L v))"
proof -
  from coerce_items_lookup[OF assms, of "map (\<lambda>(k, v). (KStr k, PStr v)) items"]
  obtain d' where d': "coerce_items (literal_eval L) items (map (\<lambda>(k, v). (KStr k, PStr v)) items) = Inr d'"
    and look: "\<And>k. map_of d' (KStr k) =
                 (case map_of items k of
                    None \<Rightarrow> map_of (map (\<lambda>(k, v). (KStr k, PStr v)) items) (KStr k)
                  | Some v \<Rightarrow> (case literal_eval L v of Inr x \<Rightarrow> Some x
                                | Inl e \<Rightarrow> map_of (map (\<lambda>(k, v). (KStr k, PStr v)) items) (KStr k)))"
    by force
  have "map_of d' (KStr k) = Some (coerced L v)" if "(k, v) \<in> set items" for k v
  proof -
    from that assms(1) have "map_of items k = Some v" by simp
    then show ?thesis
      using look[of k] by (simp add: map_of_initial_strings coerced_def split: sum.splits)
  qed
  with d' show ?thesis by blast
qed

lemma read_sections_lookup:
  assumes "distinct (map fst cfg)"
    and "list_all (\<lambda>(s, items). distinct (map fst items)) cfg"
    and "all_recoverable L cfg"
  shows "\<exists>fdata. read_sections (literal_eval L) cfg acc = Inr fdata
           \<and> (\<forall>key. key \<notin> KStr ` fst ` set cfg \<longrightarrow> map_of fdata key = map_of acc key)
           \<and> (\<forall>(s, items)\<in>set cfg. \<exists>d. map_of fdata (KStr s) = Some (PDict d)
                  \<and> (\<forall>(k, v)\<in>set items. map_of d (KStr k) = Some (coerced L v)))"
  using assms
proof (induction cfg arbitrary: acc)
  case Nil
  then show ?case by simp
next
  case (Cons sec cfg)
  obtain s items where sec: "sec = (s, items)" by (cases sec)
  from Cons.prems sec have dist: "distinct (map fst cfg)" and new: "s \<notin> fst ` set cfg"
    and di: "distinct (map fst items)" and dr: "list_all (\<lambda>(s, items). distinct (map fst items)) cfg"
    and ri: "list_all (\<lambda>(k, v). recoverable L v) items" and rr: "all_recoverable L cfg"
    by (auto simp: all_recoverable_def)
  from coerce_section[OF di ri] obtain d where
    d: "coerce_items (literal_eval L) items (map (\<lambda>(k, v). (KStr k, PStr v)) items) = Inr d"
    and dl: "\<forall>(k, v)\<in>set items. map_of d (KStr k) = Some (coerced L v)"
    by blast
  from Cons.IH[OF dist dr rr, of "dict_set (KStr s) (PDict d) acc"] obtain fdata where
    f: "read_sections (literal_eval L) cfg (dict_set (KStr s) (PDict d) acc) = Inr fdata"
    and keep: "\<forall>key. key \<notin> KStr ` fst ` set cfg \<longrightarrow> map_of fdata key = map_of (dict_set (KStr s) (PDict d) acc) key"
    and rest: "\<forall>(s, items)\<in>set cfg. \<exists>d. map_of fdata (KStr s) = Some (PDict d)
                  \<and> (\<forall>(k, v)\<in>set items. map_of d (KStr k) = Some (coerced L v))"
    by blast
  have run: "read_sections (literal_eval L) (sec # cfg) acc = Inr fdata"
    using sec d f by (simp add: dict_of_distinct[OF di])
  from new have "KStr s \<notin> KStr ` fst ` set cfg" by auto
  with keep have here: "map_of fdata (KStr s) = Some (PDict d)"
    by (simp add: map_of_dict_set)
  have outside: "\<forall>key. key \<notin> KStr ` fst ` set (sec # cfg) \<longrightarrow> map_of fdata key = map_of acc key"
    using keep sec by (auto simp: map_of_dict_set)
  from run outside here dl rest sec show ?case by auto
qed

lemma coerce_items_error:
  "coerce_items lit items d = Inl e \<Longrightarrow> e \<noteq> SyntaxError \<and> e \<noteq> ValueError"
  by (induction lit items d rule: coerce_items.induct) (auto split: sum.splits if_splits)

lemma coerce_items_returns:
  "coerce_items (literal_eval L) items d = Inr d' \<Longrightarrow> list_all (\<lambda>(k, v). recoverable L v) items"
  by (induction "literal_eval L" items d rule: coerce_items.induct)
     (auto simp: recoverable_def split: sum.splits if_splits)

lemma read_sections_error:
  "read_sections lit cfg acc = Inl e \<Longrightarrow> e \<noteq> SyntaxError \<and> e \<noteq> ValueError"
  by (induction lit cfg acc rule: read_sections.induct)
     (auto simp: Let_def dest: coerce_items_error split: sum.splits)

lemma read_sections_returns:
  "list_all (\<lambda>(s, items). distinct (map fst items)) cfg \<Longrightarrow>
     read_sections (literal_eval L) cfg acc = Inr fdata \<Longrightarrow> all_recoverable L cfg"
  by (induction "literal_eval L" cfg acc rule: read_sections.induct)
     (auto simp: Let_def all_recoverable_def dict_of_distinct dest: coerce_items_returns split: sum.splits)

text \<open>
  C6, as the code has it. Take an ini file whose parse gives the sections \<open>cfg\<close>, with
  distinct section names and distinct keys in each section. When literal parsing of every
  value either succeeds or fails with a syntax or value error, the read returns, and for
  every (section, key, value) the result maps section to key to the literal, or to the
  unmodified string where parsing failed. Otherwise the read fails with the exception of
  the literal parser, which is neither a syntax nor a value error.
\<close>

theorem read_ini_coerces_values:
  assumes "open_read w fn = Inr content"
    and "ini_parse L content = Inr cfg"
    and "distinct (map fst cfg)"
    and "list_all (\<lambda>(s, items). distinct (map fst items)) cfg"
  shows "if all_recoverable L cfg
         then \<exists>fdata. read_ini L fn w = Inr (PDict fdata)
                \<and> (\<forall>(s, items)\<in>set cfg. \<exists>d. map_of fdata (KStr s) = Some (PDict d)
                       \<and> (\<forall>(k, v)\<in>set items. map_of d (KStr k) = Some (coerced L v)))
         else \<exists>e. read_ini L fn w = Inl e \<and> e \<noteq> SyntaxError \<and> e \<noteq> ValueError"
proof (cases "all_recoverable L cfg")
  case True
  from read_sections_lookup[OF assms(3,4) True, of "[]"] obtain fdata where
    "read_sections (literal_eval L) cfg [] = Inr fdata"
    "\<forall>(s, items)\<in>set cfg. \<exists>d. map_of fdata (KStr s) = Some (PDict d)
        \<and> (\<forall>(k, v)\<in>set items. map_of d (KStr k) = Some (coerced L v))"
    by blast
  then have "read_ini L fn w = Inr (PDict fdata)
      \<and> (\<forall>(s, items)\<in>set cfg. \<exists>d. map_of fdata (KStr s) = Some (PDict d)
             \<and> (\<forall>(k, v)\<in>set items. map_of d (KStr k) = Some (coerced L v)))"
    using assms(1,2) by (simp add: read_ini_def)
  then show ?thesis unfolding if_P[OF True] by blast
next
  case False
  show ?thesis
  proof (cases "read_sections (literal_eval L) cfg []")
    case (Inr fdata)
    from read_sections_returns[OF assms(4) Inr] False show ?thesis by simp
  next
    case (Inl e)
    from read_sections_error[OF Inl] Inl assms(1,2)
    have "read_ini L fn w = Inl e \<and> e \<noteq> SyntaxError \<and> e \<noteq> ValueError"
      by (simp add: read_ini_def)
    then show ?thesis unfolding if_not_P[OF False] by blast
  qed
qed

theorem read_ini_coerces_values_witness:
  "\<exists>fdata d. read_ini sample_lib ''cfg.ini'' (world_of [(''cfg.ini'', ini_text_plain)] (typed_lines []))
                 = Inr (PDict fdata)
     \<and> map_of fdata (KStr ''s'') = Some (PDict d)
     \<and> map_of d (KStr ''n'') = Some (PInt 1)
     \<and> map_of d (KStr ''w'') = Some (PStr ''maybe'')"
proof -
  let ?w = "world_of [(''cfg.ini'', ini_text_plain)] (typed_lines [])"
  let ?cfg = "[(''s'', [(''n'', ''1''), (''w'', ''maybe'')])]"
  have h1: "open_read ?w ''cfg.ini'' = Inr ini_text_plain"
    by (simp add: open_read_def world_of_def)
  have h2: "ini_parse sample_lib ini_text_plain = Inr ?cfg"
    by (simp add: sample_lib_def sample_ini_parse_def)
  have h3: "distinct (map fst ?cfg)" by simp
  have h4: "list_all (\<lambda>(s, items). distinct (map fst items)) ?cfg" by simp
  have ok: "all_recoverable sample_lib ?cfg"
    by (simp add: all_recoverable_def recoverable_def sample_lib_def sample_literal_eval_def)
  have c1: "coerced sample_lib ''1'' = PInt 1"
    by (simp add: coerced_def sample_lib_def sample_literal_eval_def)
  have c2: "coerced sample_lib ''maybe'' = PStr ''maybe''"
    by (simp add: coerced_def sample_lib_def sample_literal_eval_def)
  from read_ini_coerces_values[OF h1 h2 h3 h4] ok
  have "\<exists>fdata. read_ini sample_lib ''cfg.ini'' ?w = Inr (PDict fdata)
          \<and> (\<forall>(s, items)\<in>set ?cfg. \<exists>d. map_of fdata (KStr s) = Some (PDict d)
                 \<and> (\<forall>(k, v)\<in>set items. map_of d (KStr k) = Some (coerced sample_lib v)))"
    by (simp only: if_True)
  then show ?thesis by (simp add: c1 c2)
qed

text \<open>
  The claim as the specification states it fails: a value whose literal parsing fails
  with another exception, here \<open>TypeError\<close> for a dictionary with a list as key, is
  raised to the caller of \<open>read\<close>.
\<close>

theorem read_ini_type_error_counterexample:
  "TextFile_read sample_lib (ini_handle ''cfg.ini'')
     (world_of [(''cfg.ini'', ini_text_unhashable)] (typed_lines []))
   = Inl TypeError"
proof -
  let ?w = "world_of [(''cfg.ini'', ini_text_unhashable)] (typed_lines [])"
  have differ: "ini_text_unhashable \<noteq> ini_text_plain"
    by (simp add: ini_text_unhashable_def ini_text_plain_def)
  have "read_ini sample_lib ''cfg.ini'' ?w = Inl TypeError"
    by (simp add: read_ini_def open_read_def world_of_def sample_lib_def sample_ini_parse_def
          differ dict_of_def dict_set_def sample_literal_eval_def)
  then show ?thesis
    by (simp add: TextFile_read_def ini_handle_def isfile_def world_of_def)
qed


section \<open>The holiday calendar\<close>

lemma weekday_range: "0 \<le> weekday y m d \<and> weekday y m d < 7"
  by (simp add: weekday_def)

lemma weekday_from_first:
  assumes "weekday y m 1 = w"
  shows "weekday y m d = (w + (d - 1)) mod 7"
proof -
  define a where "a = days_before_year y + days_before_month y m"
  have "(a + 1 + 6) mod 7 = (a + 7) mod 7" by (simp add: algebra_simps)
  also have "\<dots> = a mod 7" by (simp only: mod_add_self2)
  finally have w: "w = a mod 7"
    using assms by (simp add: weekday_def ymd2ord_def a_def)
  have "(a + d + 6) mod 7 = (a + (d - 1) + 7) mod 7" by (simp add: algebra_simps)
  also have "\<dots> = (a + (d - 1)) mod 7" by (simp only: mod_add_self2)
  also have "\<dots> = (a mod 7 + (d - 1)) mod 7" by (simp only: mod_add_left_eq)
  finally show ?thesis
    by (simp add: weekday_def ymd2ord_def a_def w)
qed

lemma first_weekday_cases:
  obtains "weekday y m 1 = 0" | "weekday y m 1 = 1" | "weekday y m 1 = 2" | "weekday y m 1 = 3"
    | "weekday y m 1 = 4" | "weekday y m 1 = 5" | "weekday y m 1 = 6"
  using weekday_range[of y m 1] by arith

lemma days_before_january [simp]: "days_before_month y 1 = 0"
  by (simp add: days_before_month_def)

lemma date_tuple_fields:
  "1 \<le> y \<Longrightarrow> d \<le> days_in_month y m \<Longrightarrow>
     \<exists>dt. date_tuple y m d = Inr dt \<and> tm_yday dt = days_before_month y m + d
       \<and> tm_wday dt = weekday y m d \<and> tm_year dt = y \<and> tm_mon dt = m \<and> tm_mday dt = d"
  by (simp add: date_tuple_def ymd2ord_def)

lemma day_name_index:
  "0 \<le> k \<Longrightarrow> k < 7 \<Longrightarrow> i < 7 \<Longrightarrow> (day_names ! nat k = day_names ! i) = (nat k = i)"
proof -
  have "distinct day_names" by (simp add: day_names_def)
  moreover have "length day_names = 7" by (simp add: day_names_def)
  ultimately show "0 \<le> k \<Longrightarrow> k < 7 \<Longrightarrow> i < 7 \<Longrightarrow> (day_names ! nat k = day_names ! i) = (nat k = i)"
    by (simp add: nth_eq_iff_index_eq)
qed

lemma nth_day_loop_filter:
  assumes "1000 \<le> y" "y \<le> 9999" "1 \<le> m" "m \<le> 12"
  shows "nth_day_loop name y m ds acc
           = Inr (acc @ map (\<lambda>d. days_before_month y m + d)
                          (filter (\<lambda>d. 1 \<le> d \<and> d \<le> 31 \<and> d \<le> days_in_month y m
                                        \<and> day_names ! nat (weekday y m d) = name) ds))"
proof (induction ds arbitrary: acc)
  case Nil
  then show ?case by simp
next
  case (Cons d ds)
  show ?case
  proof (cases "1 \<le> d \<and> d \<le> 31 \<and> d \<le> days_in_month y m")
    case True
    with assms date_tuple_fields[of y d m] obtain dt where
      dt: "date_tuple y m d = Inr dt" "tm_yday dt = days_before_month y m + d" "tm_wday dt = weekday y m d"
      by auto
    with True assms weekday_range[of y m d] show ?thesis
      by (simp add: Cons.IH strptime_ymd_def strftime_A_def strftime_j_def)
  next
    case False
    with assms have "strptime_ymd y m d = Inl ValueError"
      by (auto simp: strptime_ymd_def date_tuple_def)
    with False show ?thesis by (auto simp: Cons.IH)
  qed
qed

lemma thursday: "''Thursday'' = day_names ! 3" by (simp add: day_names_def)
lemma monday: "''Monday'' = day_names ! 0" by (simp add: day_names_def)

lemma thursdays_of_november:
  assumes "weekday y 11 1 = w"
  shows "filter (\<lambda>d. 1 \<le> d \<and> d \<le> 31 \<and> d \<le> days_in_month y 11 \<and> day_names ! nat (weekday y 11 d) = ''Thursday'') [1..31]
         = filter (\<lambda>d. d \<le> 30 \<and> (w + (d - 1)) mod 7 = 3) [1..31]"
proof (rule filter_cong[OF refl])
  fix d :: int assume "d \<in> set [1..31]"
  then have r: "1 \<le> d" "d \<le> 31" by auto
  have k: "0 \<le> (w + (d - 1)) mod 7" "(w + (d - 1)) mod 7 < 7" by simp_all
  show "(1 \<le> d \<and> d \<le> 31 \<and> d \<le> days_in_month y 11 \<and> day_names ! nat (weekday y 11 d) = ''Thursday'')
        = (d \<le> 30 \<and> (w + (d - 1)) mod 7 = 3)"
    using r day_name_index[OF k, of 3] unfolding weekday_from_first[OF assms, of d] thursday
    by (auto simp: days_in_month_def)
qed

lemma november_thursdays_table:
  "\<forall>w\<in>set [0..6].
     (let ths = filter (\<lambda>d. d \<le> 30 \<and> (w + (d - 1)) mod 7 = 3) [1..31];
          d = 22 + (3 - w) mod 7
      in 4 \<le> length ths \<and> ths ! 3 = d \<and> (w + (d - 1)) mod 7 = 3
         \<and> length (filter (\<lambda>d'. (w + (d' - 1)) mod 7 = 3) [1..d - 1]) = 3)"
  by code_simp

lemma weekday_table:
  "\<forall>w\<in>set [0..6]. \<forall>t\<in>set [0..6]. 4 \<le> length (filter (\<lambda>d. (w + (d - 1)) mod 7 = t) [1..28])"
  by code_simp

lemma py_index_map:
  "i < length xs \<Longrightarrow> py_index (map f xs) (int i) = Inr (f (xs ! i))"
  by (simp add: py_index_def)

lemma py_index_last:
  "xs \<noteq> [] \<Longrightarrow> \<exists>x. py_index xs (-1) = Inr x"
  by (cases xs) (auto simp: py_index_def)

lemma get_nth_day_thursday:
  assumes "1000 \<le> y" "y \<le> 9999"
  obtains d where "22 \<le> d" "d \<le> 28" "weekday y 11 d = 3"
    "length (filter (\<lambda>d'. weekday y 11 d' = 3) [1..d - 1]) = 3"
    "get_nth_day ''Thursday'' 4 y 11 = Inr (days_before_month y 11 + d)"
proof -
  define w where "w = weekday y 11 1"
  define d where "d = 22 + (3 - w) mod 7"
  define ths where "ths = filter (\<lambda>d. d \<le> 30 \<and> (w + (d - 1)) mod 7 = 3) [1..31]"
  have w1: "weekday y 11 1 = w" by (simp add: w_def)
  have "w \<in> set [0..6]" using weekday_range[of y 11 1] by (simp add: w_def)
  with november_thursdays_table have tab: "4 \<le> length ths" "ths ! 3 = d" "(w + (d - 1)) mod 7 = 3"
    "length (filter (\<lambda>d'. (w + (d' - 1)) mod 7 = 3) [1..d - 1]) = 3"
    unfolding ths_def d_def Let_def by blast+
  have range: "22 \<le> d" "d \<le> 28" by (simp_all add: d_def)
  have thu: "weekday y 11 d = 3"
    using tab(3) by (simp add: weekday_from_first[OF w1])
  have cnt: "length (filter (\<lambda>d'. weekday y 11 d' = 3) [1..d - 1]) = 3"
    using tab(4) by (simp add: weekday_from_first[OF w1])
  have "nth_day_loop ''Thursday'' y 11 [1..31] [] = Inr (map (\<lambda>d. days_before_month y 11 + d) ths)"
    using nth_day_loop_filter[OF assms, of 11 "''Thursday''" "[1..31]" "[]"]
    unfolding thursdays_of_november[OF w1] ths_def by simp
  moreover have "py_index (map (\<lambda>d. days_before_month y 11 + d) ths) (int 3)
                   = Inr (days_before_month y 11 + ths ! 3)"
    using tab(1) by (intro py_index_map) simp
  ultimately have "get_nth_day ''Thursday'' 4 y 11 = Inr (days_before_month y 11 + d)"
    using tab(2) by (simp add: get_nth_day_def)
  with range thu cnt show thesis by (rule that)
qed

lemma get_nth_day_returns:
  assumes "1000 \<le> y" "y \<le> 9999" "1 \<le> m" "m \<le> 12" "i < 7" "n = -1 \<or> (1 \<le> n \<and> n \<le> 4)"
  shows "\<exists>j. get_nth_day (day_names ! i) n y m = Inr j"
proof -
  define w where "w = weekday y m 1"
  define P where "P = (\<lambda>d. 1 \<le> d \<and> d \<le> 31 \<and> d \<le> days_in_month y m
                            \<and> day_names ! nat (weekday y m d) = day_names ! i)"
  have w1: "weekday y m 1 = w" by (simp add: w_def)
  have "w \<in> set [0..6]" using weekday_range[of y m 1] by (simp add: w_def)
  moreover have "int i \<in> set [0..6]" using assms(5) by simp
  ultimately have four: "4 \<le> length (filter (\<lambda>d. (w + (d - 1)) mod 7 = int i) [1..28])"
    using weekday_table by blast
  have "filter P [1..28] = filter (\<lambda>d. (w + (d - 1)) mod 7 = int i) [1..28]"
  proof (rule filter_cong[OF refl])
    fix d :: int assume "d \<in> set [1..28]"
    then have r: "1 \<le> d" "d \<le> 28" by auto
    have k: "0 \<le> (w + (d - 1)) mod 7" "(w + (d - 1)) mod 7 < 7" by simp_all
    have "28 \<le> days_in_month y m" by (simp add: days_in_month_def)
    with r show "P d = ((w + (d - 1)) mod 7 = int i)"
      using day_name_index[OF k assms(5)] unfolding P_def weekday_from_first[OF w1, of d]
      by auto
  qed
  moreover have "[1..31] = [1..28] @ [29..31::int]" by code_simp
  ultimately have len: "4 \<le> length (filter P [1..31])"
    using four by simp
  have loop: "nth_day_loop (day_names ! i) y m [1..31] []
                = Inr (map (\<lambda>d. days_before_month y m + d) (filter P [1..31]))"
    using nth_day_loop_filter[OF assms(1-4), of "day_names ! i" "[1..31]" "[]"]
    by (simp add: P_def)
  let ?xs = "map (\<lambda>d. days_before_month y m + d) (filter P [1..31])"
  from len have ne: "?xs \<noteq> []" by auto
  show ?thesis
  proof (cases "n = -1")
    case True
    with py_index_last[OF ne] loop show ?thesis by (simp add: get_nth_day_def)
  next
    case False
    with assms(6) have n: "1 \<le> n" "n \<le> 4" by auto
    then have "nat (n - 1) < length (filter P [1..31])" using len by simp
    from py_index_map[OF this, of "\<lambda>d. days_before_month y m + d"] n
    have "py_index ?xs (n - 1) = Inr (days_before_month y m + filter P [1..31] ! nat (n - 1))"
      by simp
    with False loop show ?thesis by (simp add: get_nth_day_def)
  qed
qed

lemma digit_char_value:
  assumes "k < 10"
  shows "(of_char (digit_char k) :: nat) = 48 + k"
  using assms by (simp add: digit_char_def)

lemma digit_char_props:
  assumes "k < 10"
  shows "is_digit (digit_char k)" "int (of_char (digit_char k)) - 48 = int k" "digit_char k \<noteq> CHR ''-''"
proof -
  note v = digit_char_value[OF assms]
  show "is_digit (digit_char k)" using assms by (simp add: is_digit_def v)
  show "int (of_char (digit_char k)) - 48 = int k" by (simp add: v)
  show "digit_char k \<noteq> CHR ''-''"
  proof
    assume "digit_char k = CHR ''-''"
    then have "(of_char (digit_char k) :: nat) = of_char (CHR ''-'')" by simp
    with v show False by simp
  qed
qed


lemma str_nat_four_digits:
  assumes "1000 \<le> n" "n < 10000"
  shows "str_nat n = [digit_char (n div 1000), digit_char (n div 100 mod 10),
                      digit_char (n div 10 mod 10), digit_char (n mod 10)]"
proof -
  have a: "\<not> n < 10" "\<not> n div 10 < 10" "\<not> n div 100 < 10" "n div 1000 < 10"
    using assms by simp_all
  have d2: "n div 10 div 10 = n div 100"
    using div_mult2_eq[of n 10 10] by simp
  have d3: "n div 100 div 10 = n div 1000"
    using div_mult2_eq[of n 100 10] by simp
  have "str_nat (n div 1000) = [digit_char (n div 1000)]"
    using a(4) by (subst str_nat.simps) simp
  then have "str_nat (n div 100) = [digit_char (n div 1000), digit_char (n div 100 mod 10)]"
    using a(3) by (subst str_nat.simps) (simp add: d3)
  then have "str_nat (n div 10) = [digit_char (n div 1000), digit_char (n div 100 mod 10),
                                   digit_char (n div 10 mod 10)]"
    using a(2) by (subst str_nat.simps) (simp add: d2)
  then show ?thesis
    using a(1) by (subst str_nat.simps) simp
qed

lemma split_on_prefix:
  "c \<notin> set s \<Longrightarrow> split_on c (s @ c # t) = s # split_on c t"
  by (induction s) (auto split: list.splits)

lemma year_text:
  assumes "1000 \<le> y" "y \<le> 9999"
  shows "match_Y (str_int y)" "digits_val (str_int y) = y" "CHR ''-'' \<notin> set (str_int y)"
proof -
  define n where "n = nat y"
  have n: "1000 \<le> n" "n < 10000" "y = int n" using assms by (simp_all add: n_def)
  have s: "str_int y = [digit_char (n div 1000), digit_char (n div 100 mod 10),
                        digit_char (n div 10 mod 10), digit_char (n mod 10)]"
    using assms str_nat_four_digits[OF n(1,2)] by (simp add: str_int_def n_def)
  have k: "n div 1000 < 10" "n div 100 mod 10 < 10" "n div 10 mod 10 < 10" "n mod 10 < 10"
    using n by simp_all
  show "match_Y (str_int y)"
    unfolding s by (simp add: match_Y_def digit_char_props(1)[OF k(1)] digit_char_props(1)[OF k(2)]
          digit_char_props(1)[OF k(3)] digit_char_props(1)[OF k(4)])
  show "CHR ''-'' \<notin> set (str_int y)"
    unfolding s using digit_char_props(3)[OF k(1)] digit_char_props(3)[OF k(2)]
      digit_char_props(3)[OF k(3)] digit_char_props(3)[OF k(4)] by auto
  have "digits_val (str_int y)
          = 1000 * int (n div 1000) + 100 * int (n div 100 mod 10) + 10 * int (n div 10 mod 10) + int (n mod 10)"
    unfolding s by (simp add: digits_val_def digit_char_props(2)[OF k(1)] digit_char_props(2)[OF k(2)]
          digit_char_props(2)[OF k(3)] digit_char_props(2)[OF k(4)])
  also have "\<dots> = int (1000 * (n div 1000) + 100 * (n div 100 mod 10) + 10 * (n div 10 mod 10) + n mod 10)"
    by simp
  also have "1000 * (n div 1000) + 100 * (n div 100 mod 10) + 10 * (n div 10 mod 10) + n mod 10 = n"
  proof -
    have e1: "n = 10 * (n div 10) + n mod 10" by simp
    have e2: "n div 10 = 10 * (n div 100) + n div 10 mod 10"
      using mult_div_mod_eq[of 10 "n div 10"] by (simp add: div_mult2_eq[symmetric])
    have e3: "n div 100 = 10 * (n div 1000) + n div 100 mod 10"
      using mult_div_mod_eq[of 10 "n div 100"] by (simp add: div_mult2_eq[symmetric])
    show ?thesis using e1 e2 e3 by linarith
  qed
  finally show "digits_val (str_int y) = y" using n(3) by simp
qed


lemma month_day_texts:
  "split_on (CHR ''-'') ''01-01'' = [''01'', ''01'']"
  "split_on (CHR ''-'') ''07-04'' = [''07'', ''04'']"
  "split_on (CHR ''-'') ''12-25'' = [''12'', ''25'']"
  "match_m ''01''" "match_m ''07''" "match_m ''12''"
  "match_d ''01''" "match_d ''04''" "match_d ''25''"
  "digits_val ''01'' = 1" "digits_val ''04'' = 4" "digits_val ''07'' = 7"
  "digits_val ''12'' = 12" "digits_val ''25'' = 25"
  by code_simp+

lemma make_day_julian_fixed:
  assumes "1000 \<le> y" "y \<le> 9999"
  shows "make_day_julian (str_int y @ ''-01-01'') = Inr 1"
    and "make_day_julian (str_int y @ ''-07-04'') = Inr (days_before_month y 7 + 4)"
    and "make_day_julian (str_int y @ ''-12-25'') = Inr (days_before_month y 12 + 25)"
proof -
  note yt = year_text[OF assms]
  have sp: "split_on (CHR ''-'') (str_int y @ CHR ''-'' # t) = str_int y # split_on (CHR ''-'') t" for t
    by (rule split_on_prefix[OF yt(3)])
  have y1: "1 \<le> y" using assms by simp
  have "strptime_iso (str_int y @ ''-01-01'') = date_tuple y 1 1"
    using sp[of "''01-01''"] by (simp add: strptime_iso_def month_day_texts yt)
  moreover have "strptime_iso (str_int y @ ''-07-04'') = date_tuple y 7 4"
    using sp[of "''07-04''"] by (simp add: strptime_iso_def month_day_texts yt)
  moreover have "strptime_iso (str_int y @ ''-12-25'') = date_tuple y 12 25"
    using sp[of "''12-25''"] by (simp add: strptime_iso_def month_day_texts yt)
  moreover obtain t1 where "date_tuple y 1 1 = Inr t1" "tm_yday t1 = days_before_month y 1 + 1"
    using date_tuple_fields[OF y1, of 1 1] by (auto simp: days_in_month_def)
  moreover obtain t2 where "date_tuple y 7 4 = Inr t2" "tm_yday t2 = days_before_month y 7 + 4"
    using date_tuple_fields[OF y1, of 4 7] by (auto simp: days_in_month_def)
  moreover obtain t3 where "date_tuple y 12 25 = Inr t3" "tm_yday t3 = days_before_month y 12 + 25"
    using date_tuple_fields[OF y1, of 25 12] by (auto simp: days_in_month_def)
  ultimately show "make_day_julian (str_int y @ ''-01-01'') = Inr 1"
    and "make_day_julian (str_int y @ ''-07-04'') = Inr (days_before_month y 7 + 4)"
    and "make_day_julian (str_int y @ ''-12-25'') = Inr (days_before_month y 12 + 25)"
    by (simp_all add: make_day_julian_def strftime_j_def)
qed

lemma holidays_loaded:
  assumes "1000 \<le> y" "y \<le> 9999"
    and "get_nth_day ''Thursday'' 4 y 11 = Inr thx"
  shows "\<exists>H. holidays y = Inr H \<and> map_of H ''Thanksgiving'' = Some thx"
proof -
  have m: "''Monday'' = day_names ! 0" by (simp add: day_names_def)
  obtain j1 where j1: "get_nth_day ''Monday'' 3 y 1 = Inr j1"
    using get_nth_day_returns[OF assms(1,2), of 1 0 3] unfolding m by auto
  obtain j2 where j2: "get_nth_day ''Monday'' 3 y 2 = Inr j2"
    using get_nth_day_returns[OF assms(1,2), of 2 0 3] unfolding m by auto
  obtain j3 where j3: "get_nth_day ''Monday'' (-1) y 5 = Inr j3"
    using get_nth_day_returns[OF assms(1,2), of 5 0 "-1"] unfolding m by auto
  obtain j4 where j4: "get_nth_day ''Monday'' 1 y 9 = Inr j4"
    using get_nth_day_returns[OF assms(1,2), of 9 0 1] unfolding m by auto
  let ?pairs = "[(''New Year's Day'', 1), (''Martin Luther King Jr Day'', j1), (''Presidents Day'', j2),
                 (''Memorial Day'', j3), (''Independence Day'', days_before_month y 7 + 4),
                 (''Labor Day'', j4), (''Thanksgiving'', thx), (''Thanksgiving Friday'', thx + 1),
                 (''Christmas'', days_before_month y 12 + 25)]"
  have d: "distinct (map fst ?pairs)" by simp
  have "holidays y = Inr (dict_of ?pairs)"
    by (simp add: holidays_def dict_display_def make_day_julian_fixed[OF assms(1,2)] j1 j2 j3 j4 assms(3))
  then have "holidays y = Inr ?pairs"
    by (simp only: dict_of_distinct[OF d])
  moreover have "map_of ?pairs ''Thanksgiving'' = Some thx" by simp
  ultimately show ?thesis by blast
qed

lemma upto_table:
  "[1..0] = ([]::int list)" "[1..1] = [1::int]" "[1..2] = [1, 2::int]" "[1..3] = [1, 2, 3::int]"
  "[1..4] = [1, 2, 3, 4::int]" "[1..5] = [1, 2, 3, 4, 5::int]" "[1..6] = [1, 2, 3, 4, 5, 6::int]"
  "[1..7] = [1, 2, 3, 4, 5, 6, 7::int]" "[1..8] = [1, 2, 3, 4, 5, 6, 7, 8::int]"
  "[1..9] = [1, 2, 3, 4, 5, 6, 7, 8, 9::int]" "[1..10] = [1, 2, 3, 4, 5, 6, 7, 8, 9, 10::int]"
  "[1..11] = [1, 2, 3, 4, 5, 6, 7, 8, 9, 10, 11::int]"
  "[1..12] = [1, 2, 3, 4, 5, 6, 7, 8, 9, 10, 11, 12::int]"
  "[22..28] = [22, 23, 24, 25, 26, 27, 28::int]"
  by code_simp+

lemma month_cases:
  assumes "1 \<le> m" "m \<le> 12"
  shows "m = 1 \<or> m = 2 \<or> m = 3 \<or> m = 4 \<or> m = 5 \<or> m = 6 \<or> m = 7 \<or> m = 8 \<or> m = 9
         \<or> m = 10 \<or> m = 11 \<or> m = (12::int)"
proof -
  from assms have "m \<in> set [1..12]" by simp
  then have "m \<in> set [1, 2, 3, 4, 5, 6, 7, 8, 9, 10, 11, 12::int]" by (simp only: upto_table)
  then show ?thesis by simp
qed

lemma late_november_cases:
  assumes "22 \<le> d" "d \<le> 28"
  shows "d = 22 \<or> d = 23 \<or> d = 24 \<or> d = 25 \<or> d = 26 \<or> d = 27 \<or> d = (28::int)"
proof -
  from assms have "d \<in> set [22..28]" by (simp only: set_upto atLeastAtMost_iff)
  then have "d \<in> set [22, 23, 24, 25, 26, 27, 28::int]" by (simp only: upto_table)
  then show ?thesis by simp
qed

lemma year_day_order:
  assumes "1 \<le> m" "m \<le> 12" "1 \<le> dd" "dd \<le> days_in_month y m" "22 \<le> d" "d \<le> 28"
  shows "(days_before_month y 11 + d \<le> days_before_month y m + dd) = ((m = 11 \<and> d \<le> dd) \<or> m = 12)"
  using month_cases[OF assms(1,2)] assms(3-6)
  by (elim disjE) (auto simp: days_before_month_def days_in_month_def upto_table split: if_splits)

lemma strptime_ymd_fields:
  assumes "strptime_ymd y m dd = Inr dt"
  shows "1 \<le> m" "m \<le> 12" "1 \<le> dd" "dd \<le> days_in_month y m" "tm_yday dt = days_before_month y m + dd"
  using assms
  by (auto simp: strptime_ymd_def date_tuple_def ymd2ord_def split: if_splits)

lemma is_eoy_threshold:
  "map_of H ''Thanksgiving'' = Some thx \<Longrightarrow>
     is_eoy H now dtuple = Inr (thx \<le> tm_yday (case dtuple of None \<Rightarrow> now | Some t \<Rightarrow> t))"
  by (simp add: is_eoy_def Let_def strftime_j_def)

text \<open>
  C8. \<open>this_year\<close> is the year of the clock when the module is loaded, a four-digit year
  from 1900 on (the years every \<open>time.strftime\<close> accepts). The module loads, and its
  Thanksgiving entry is the day of the year of November \<open>d\<close>, where \<open>d\<close> is a Thursday
  with exactly three Thursdays of November before it. \<open>is_eoy\<close> returns true exactly when
  the day of the year of its date (the current time when no date is given) is at least
  that entry; for a date of the current year this means: from November \<open>d\<close> to December
  31.
\<close>

theorem is_eoy_from_thanksgiving:
  assumes "1900 \<le> this_year" "this_year \<le> 9999"
  shows "\<exists>H d. holidays this_year = Inr H
           \<and> 22 \<le> d \<and> d \<le> 28 \<and> weekday this_year 11 d = 3
           \<and> length (filter (\<lambda>d'. weekday this_year 11 d' = 3) [1..d - 1]) = 3
           \<and> map_of H ''Thanksgiving'' = Some (days_before_month this_year 11 + d)
           \<and> (\<forall>dtuple. is_eoy H now dtuple
                  = Inr (days_before_month this_year 11 + d
                           \<le> tm_yday (case dtuple of None \<Rightarrow> now | Some t \<Rightarrow> t)))
           \<and> (\<forall>m dd dt. strptime_ymd this_year m dd = Inr dt \<longrightarrow>
                  is_eoy H now (Some dt) = Inr ((m = 11 \<and> d \<le> dd) \<or> m = 12))"
proof -
  from assms have yr: "1000 \<le> this_year" "this_year \<le> 9999" by simp_all
  from get_nth_day_thursday[OF yr] obtain d where
    d: "22 \<le> d" "d \<le> 28" "weekday this_year 11 d = 3"
       "length (filter (\<lambda>d'. weekday this_year 11 d' = 3) [1..d - 1]) = 3"
       "get_nth_day ''Thursday'' 4 this_year 11 = Inr (days_before_month this_year 11 + d)"
    by blast
  from holidays_loaded[OF yr d(5)] obtain H where
    H: "holidays this_year = Inr H"
       "map_of H ''Thanksgiving'' = Some (days_before_month this_year 11 + d)"
    by blast
  have general: "is_eoy H now dtuple
        = Inr (days_before_month this_year 11 + d \<le> tm_yday (case dtuple of None \<Rightarrow> now | Some t \<Rightarrow> t))"
    for dtuple
    by (rule is_eoy_threshold[OF H(2)])
  have current: "is_eoy H now (Some dt) = Inr ((m = 11 \<and> d \<le> dd) \<or> m = 12)"
    if "strptime_ymd this_year m dd = Inr dt" for m dd dt
  proof -
    note f = strptime_ymd_fields[OF that]
    from year_day_order[OF f(1-4) d(1,2)] show ?thesis
      by (simp add: general f(5))
  qed
  from H d(1-4) general current show ?thesis by blast
qed

lemma strptime_2018:
  "strptime_ymd 2018 11 22 =
     Inr \<lparr>tm_year = 2018, tm_mon = 11, tm_mday = 22, tm_hour = 0, tm_min = 0, tm_sec = 0,
          tm_wday = 3, tm_yday = 326, tm_isdst = -1\<rparr>"
  "strptime_ymd 2018 11 21 =
     Inr \<lparr>tm_year = 2018, tm_mon = 11, tm_mday = 21, tm_hour = 0, tm_min = 0, tm_sec = 0,
          tm_wday = 2, tm_yday = 325, tm_isdst = -1\<rparr>"
  "strptime_ymd 2019 11 22 =
     Inr \<lparr>tm_year = 2019, tm_mon = 11, tm_mday = 22, tm_hour = 0, tm_min = 0, tm_sec = 0,
          tm_wday = 4, tm_yday = 326, tm_isdst = -1\<rparr>"
  by code_simp+

lemma weekday_2018:
  "weekday 2018 11 22 = 3" "weekday 2018 11 23 \<noteq> 3" "weekday 2018 11 24 \<noteq> 3"
  "weekday 2018 11 25 \<noteq> 3" "weekday 2018 11 26 \<noteq> 3" "weekday 2018 11 27 \<noteq> 3"
  "weekday 2018 11 28 \<noteq> 3"
  by code_simp+

theorem is_eoy_from_thanksgiving_witness:
  "(1900::int) \<le> 2018 \<and> (2018::int) \<le> 9999
   \<and> (\<exists>H. holidays 2018 = Inr H
         \<and> is_eoy H (date_2018_11_21) (Some date_2018_11_22) = Inr True
         \<and> is_eoy H (date_2018_11_21) (Some date_2018_11_21) = Inr False
         \<and> is_eoy H (date_2018_11_21) None = Inr False)"
proof -
  have h1: "(1900::int) \<le> 2018" and h2: "(2018::int) \<le> 9999" by simp_all
  from is_eoy_from_thanksgiving[OF h1 h2, of date_2018_11_21] obtain H d where
    H: "holidays 2018 = Inr H" and d: "22 \<le> d" "d \<le> 28" "weekday 2018 11 d = 3"
    and general: "\<And>dtuple. is_eoy H date_2018_11_21 dtuple
                    = Inr (days_before_month 2018 11 + d
                             \<le> tm_yday (case dtuple of None \<Rightarrow> date_2018_11_21 | Some t \<Rightarrow> t))"
    and current: "\<And>m dd dt. strptime_ymd 2018 m dd = Inr dt \<Longrightarrow>
                    is_eoy H date_2018_11_21 (Some dt) = Inr ((m = 11 \<and> d \<le> dd) \<or> m = 12)"
    by blast
  from late_november_cases[OF d(1,2)] have d22: "d = 22"
    using d(3) weekday_2018 by auto
  have s22: "strptime_ymd 2018 11 22 = Inr date_2018_11_22"
    and s21: "strptime_ymd 2018 11 21 = Inr date_2018_11_21"
    by (simp_all add: strptime_2018 date_2018_11_22_def date_2018_11_21_def)
  have "is_eoy H date_2018_11_21 (Some date_2018_11_22) = Inr True"
    using current[OF s22] d22 by simp
  moreover have f: "is_eoy H date_2018_11_21 (Some date_2018_11_21) = Inr False"
    using current[OF s21] d22 by simp
  moreover have "is_eoy H date_2018_11_21 None = Inr False"
    using f general[of None] general[of "Some date_2018_11_21"] by simp
  ultimately show ?thesis using H by auto
qed

text \<open>
  C10. \<open>is_holiday\<close> is the membership of the day-of-year number of its date in the
  day-of-year numbers of the table; no other field of the date is read. So two dates with
  the same day-of-year number get the same answer, in whatever years they lie.
\<close>

theorem is_holiday_reads_day_of_year_only:
  "is_holiday H now (Some dt) = (tm_yday dt \<in> snd ` set H)
   \<and> (tm_yday d1 = tm_yday d2 \<longrightarrow> is_holiday H now (Some d1) = is_holiday H now (Some d2))"
  by (simp add: is_holiday_def Let_def strftime_j_def)

lemma holidays_2018:
  "holidays 2018 =
     Inr [(''New Year's Day'', 1), (''Martin Luther King Jr Day'', 15), (''Presidents Day'', 50),
          (''Memorial Day'', 148), (''Independence Day'', 185), (''Labor Day'', 246),
          (''Thanksgiving'', 326), (''Thanksgiving Friday'', 327), (''Christmas'', 359)]"
  by code_simp

theorem is_holiday_reads_day_of_year_only_witness:
  "\<exists>H. holidays 2018 = Inr H
     \<and> strptime_ymd 2018 11 22 = Inr date_2018_11_22
     \<and> strptime_ymd 2019 11 22 = Inr date_2019_11_22
     \<and> tm_year date_2018_11_22 \<noteq> tm_year date_2019_11_22
     \<and> tm_yday date_2018_11_22 = tm_yday date_2019_11_22
     \<and> is_holiday H date_2018_11_21 (Some date_2018_11_22)
     \<and> is_holiday H date_2018_11_21 (Some date_2019_11_22)"
proof -
  let ?H = "[(''New Year's Day'', 1), (''Martin Luther King Jr Day'', 15), (''Presidents Day'', 50),
          (''Memorial Day'', 148), (''Independence Day'', 185), (''Labor Day'', 246),
          (''Thanksgiving'', 326), (''Thanksgiving Friday'', 327), (''Christmas'', 359::int)]"
  have same: "tm_yday date_2018_11_22 = tm_yday date_2019_11_22"
    by (simp add: date_2018_11_22_def date_2019_11_22_def)
  have "is_holiday ?H date_2018_11_21 (Some date_2018_11_22) = (tm_yday date_2018_11_22 \<in> snd ` set ?H)"
    using is_holiday_reads_day_of_year_only[of ?H date_2018_11_21 date_2018_11_22] by blast
  then have a: "is_holiday ?H date_2018_11_21 (Some date_2018_11_22)"
    by (simp add: date_2018_11_22_def)
  have "is_holiday ?H date_2018_11_21 (Some date_2018_11_22) = is_holiday ?H date_2018_11_21 (Some date_2019_11_22)"
    using is_holiday_reads_day_of_year_only[of ?H date_2018_11_21 _ date_2018_11_22 date_2019_11_22] same
    by blast
  with a have b: "is_holiday ?H date_2018_11_21 (Some date_2019_11_22)" by simp
  have "tm_year date_2018_11_22 \<noteq> tm_year date_2019_11_22"
    by (simp add: date_2018_11_22_def date_2019_11_22_def)
  with a b same holidays_2018 strptime_2018 show ?thesis
    by (simp add: date_2018_11_22_def date_2019_11_22_def)
qed


end
